theory Spec2Isabelle
  imports Complex_Main "HOL-Library.List_Lexorder" "HOL-Library.Char_ord"
begin

section \<open>Errors raised by the modelled code\<close>

text \<open>
  Every exception the modelled Python code can raise is a value of this type. The
  payload of \<open>OtherError\<close> is the message of an exception that comes out of an external
  library (pandas, keras, scikit-learn) and is propagated unhandled.
\<close>

datatype error =
    ValueError
  | KeyError
  | TypeError
  | IndexError
  | NameError
  | AttributeError
  | NotFittedError
  | OtherError string

text \<open>
  Python's \<open>LookupError\<close> is the base class of \<open>KeyError\<close> and \<open>IndexError\<close>; \<open>TypeError\<close>
  and \<open>ValueError\<close> are not lookup errors.
\<close>

fun is_lookup_error :: "error \<Rightarrow> bool" where
  "is_lookup_error KeyError = True"
| "is_lookup_error IndexError = True"
| "is_lookup_error e = False"

section \<open>The part of \<open>pathlib\<close> that \<open>Csv.__init__\<close> uses\<close>

text \<open>
  \<open>Csv.__init__\<close> receives a \<open>pathlib.Path\<close> and calls its \<open>suffix\<close> property and its
  \<open>with_suffix\<close> method. A pure path is its anchor (drive and root, \<open>''''\<close> for a relative
  path) and the list of its components after the anchor. Strings are lists of bytes; the
  only character the code inspects is the ASCII dot, so the byte view and Python's code
  point view agree on every position that matters.

  The definitions follow CPython's \<open>pathlib.PurePath\<close> of versions 3.4 to 3.11. (From 3.12
  on \<open>with_suffix\<close> also refuses to leave the name \<open>.\<close>, as for \<open>..csv\<close>, and 3.14 takes a
  final dot as a suffix.)
  \<^verbatim>\<open>
    def name(self):
        parts = self._parts
        if len(parts) == (1 if (self._drv or self._root) else 0):
            return ''
        return parts[-1]

    def suffix(self):
        name = self.name
        i = name.rfind('.')
        if 0 < i < len(name) - 1:
            return name[i:]
        else:
            return ''

    def with_suffix(self, suffix):
        f = self._flavour
        if f.sep in suffix or f.altsep and f.altsep in suffix:
            raise ValueError("Invalid suffix %r" % (suffix,))
        if suffix and not suffix.startswith('.') or suffix == '.':
            raise ValueError("Invalid suffix %r" % (suffix))
        name = self.name
        if not name:
            raise ValueError("%r has an empty name" % (self,))
        old_suffix = self.suffix
        if not old_suffix:
            name = name + suffix
        else:
            name = name[:-len(old_suffix)] + suffix
        return self._from_parsed_parts(self._drv, self._root,
                                       self._parts[:-1] + [name])
  \<close>
\<close>

record path =
  anchor :: string
  parts :: "string list"

definition name :: "path \<Rightarrow> string" where
  "name p = (if parts p = [] then [] else last (parts p))"

text \<open>Python's \<open>str.rfind\<close> for a single character: the highest index, or \<open>-1\<close>.\<close>

fun rfind :: "string \<Rightarrow> char \<Rightarrow> int" where
  "rfind [] c = -1"
| "rfind (x # xs) c =
     (let r = rfind xs c in if 0 \<le> r then r + 1 else if x = c then 0 else -1)"

text \<open>The body of the \<open>suffix\<close> property, on the name it reads.\<close>

definition name_suffix :: "string \<Rightarrow> string" where
  "name_suffix nm =
     (let i = rfind nm (CHR ''.'')
      in if 0 < i \<and> i < int (length nm) - 1 then drop (nat i) nm else [])"

text \<open>
  The \<open>stem\<close> property has the same test and returns the other half of the name:
  \<^verbatim>\<open>
    def stem(self):
        name = self.name
        i = name.rfind('.')
        if 0 < i < len(name) - 1:
            return name[:i]
        else:
            return name
  \<close>
\<close>

definition name_stem :: "string \<Rightarrow> string" where
  "name_stem nm =
     (let i = rfind nm (CHR ''.'')
      in if 0 < i \<and> i < int (length nm) - 1 then take (nat i) nm else nm)"

definition suffix :: "path \<Rightarrow> string" where
  "suffix p = name_suffix (name p)"

text \<open>Python's \<open>str.startswith\<close> and \<open>str.endswith\<close>.\<close>

definition startswith :: "string \<Rightarrow> string \<Rightarrow> bool" where
  "startswith s t = (take (length t) s = t)"

definition endswith :: "string \<Rightarrow> string \<Rightarrow> bool" where
  "endswith s t = (length t \<le> length s \<and> drop (length s - length t) s = t)"

text \<open>
  \<open>with_suffix\<close> for the POSIX flavour (\<open>sep = '/'\<close>, no \<open>altsep\<close>). The slice
  \<open>name[:-len(old_suffix)]\<close> is taken only when \<open>old_suffix\<close> is not empty.
\<close>

definition with_suffix :: "path \<Rightarrow> string \<Rightarrow> error + path" where
  "with_suffix p sfx =
     (if CHR ''/'' \<in> set sfx then Inl ValueError
      else if (sfx \<noteq> [] \<and> \<not> startswith sfx ''.'') \<or> sfx = ''.'' then Inl ValueError
      else let nm = name p in
        if nm = [] then Inl ValueError
        else let old_suffix = suffix p;
                 nm' = (if old_suffix = [] then nm @ sfx
                        else take (length nm - length old_suffix) nm @ sfx)
             in Inr (p\<lparr>parts := butlast (parts p) @ [nm']\<rparr>))"

text \<open>\<open>str(path)\<close> for the POSIX flavour: the anchor, then the components joined by \<open>/\<close>.\<close>

fun join_parts :: "string list \<Rightarrow> string" where
  "join_parts [] = []"
| "join_parts [x] = x"
| "join_parts (x # y # ys) = x @ ''/'' @ join_parts (y # ys)"

definition str_path :: "path \<Rightarrow> string" where
  "str_path p = (if anchor p = [] \<and> parts p = [] then ''.'' else anchor p @ join_parts (parts p))"

section \<open>\<open>Csv.__init__\<close>: normalising the path\<close>

text \<open>
  \<^verbatim>\<open>
    compress = True if csv_path.suffix == compr_suffix else compress
    while csv_path.suffix in {csv_suffix, compr_suffix}:
        csv_path = csv_path.with_suffix("")
    self.csv_path = (
        csv_path.with_suffix(f"{csv_suffix}{compr_suffix}")
        if compress
        else csv_path.with_suffix(csv_suffix)
    )
  \<close>
  The \<open>while\<close> loop need not terminate for every pair of suffixes (with
  \<open>csv_suffix = ""\<close> a name without a suffix is never changed by \<open>with_suffix("")\<close>), so
  the loop is a partial function: \<open>None\<close> is "does not return", \<open>Some (Inl e)\<close> is an
  exception, \<open>Some (Inr p)\<close> the path the loop ends with.
\<close>

record Csv =
  csv_path :: path

partial_function (option) strip_loop :: "string \<Rightarrow> string \<Rightarrow> path \<Rightarrow> (error + path) option" where
  "strip_loop csv_suffix compr_suffix p =
     (if suffix p \<in> {csv_suffix, compr_suffix}
      then (case with_suffix p [] of
              Inl e \<Rightarrow> Some (Inl e)
            | Inr p' \<Rightarrow> strip_loop csv_suffix compr_suffix p')
      else Some (Inr p))"

definition Csv_init :: "path \<Rightarrow> bool \<Rightarrow> string \<Rightarrow> string \<Rightarrow> (error + Csv) option" where
  "Csv_init p compress csv_suffix compr_suffix =
     (let compress = (if suffix p = compr_suffix then True else compress)
      in case strip_loop csv_suffix compr_suffix p of
           None \<Rightarrow> None
         | Some (Inl e) \<Rightarrow> Some (Inl e)
         | Some (Inr p') \<Rightarrow>
             (case (if compress then with_suffix p' (csv_suffix @ compr_suffix)
                    else with_suffix p' csv_suffix) of
                Inl e \<Rightarrow> Some (Inl e)
              | Inr q \<Rightarrow> Some (Inr \<lparr>csv_path = q\<rparr>)))"

text \<open>The call with the default suffixes, \<open>Csv(csv_path, compress)\<close>.\<close>

definition Csv_default :: "path \<Rightarrow> bool \<Rightarrow> (error + Csv) option" where
  "Csv_default p compress = Csv_init p compress ''.csv'' ''.zip''"

subsection \<open>The normalisation as the specification words it\<close>

text \<open>
  The specification describes the construction as: the final suffixes equal to the base
  suffix or to the compression suffix are stripped, repeatedly from the end; then the
  canonical suffix is appended (followed by the compression suffix when compressing).
  \<open>spec_strip\<close> is the first half on a file name, for the default suffixes, and
  \<open>spec_normalize\<close> the whole, with "compressing" read as: requested by the flag or
  forced by the suffix of the given path. \<open>set_name\<close> replaces the last component.
\<close>

definition set_name :: "path \<Rightarrow> string \<Rightarrow> path" where
  "set_name p nm = p\<lparr>parts := butlast (parts p) @ [nm]\<rparr>"

function spec_strip :: "string \<Rightarrow> string" where
  "spec_strip nm =
     (if name_suffix nm \<in> {''.csv'', ''.zip''} then spec_strip (name_stem nm) else nm)"
  by pat_completeness auto
termination
  by (relation "measure length")
     (auto simp: name_stem_def name_suffix_def Let_def split: if_splits)

definition spec_normalize :: "path \<Rightarrow> bool \<Rightarrow> path" where
  "spec_normalize p compress =
     set_name p (spec_strip (name p) @
       (if suffix p = ''.zip'' \<or> compress then ''.csv.zip'' else ''.csv''))"

section \<open>\<open>Csv.read\<close>: delimiter sniffing and index rounding\<close>

text \<open>
  \<open>pandas.read_csv\<close> and \<open>numpy.round\<close> are external: they are parameters of the model,
  collected in a record. A data frame is its row index (a name and the values), its column
  labels and its rows; \<open>csv.shape[1]\<close> is the number of columns. \<open>read_csv\<close> takes the
  path, \<open>index_col\<close>, \<open>dtype\<close>, \<open>nrows\<close> (\<open>None\<close> when the argument is not passed) and
  \<open>sep\<close>; it returns the frame or the exception it raises (missing file, parse error).
  \<open>np_round\<close> returns the rounded index, or the exception raised for an index that is not
  numeric.
\<close>

record 'v index =
  idx_name :: "string option"
  idx_values :: "'v list"

record 'v frame =
  frame_index :: "'v index"
  columns :: "string list"
  rows :: "'v list list"

datatype index_cols = IdxInt int | IdxList "int list"

record ('d, 'v) pandas =
  read_csv :: "path \<Rightarrow> index_cols \<Rightarrow> 'd option \<Rightarrow> nat option \<Rightarrow> string \<Rightarrow> error + 'v frame"
  np_round :: "'v index \<Rightarrow> int \<Rightarrow> error + 'v index"

text \<open>
  \<^verbatim>\<open>
    delimiters: List[str] = [",", "\t"]
    for delimiter in delimiters:
        csv: pd.DataFrame = pd.read_csv(
            self.csv_path, index_col=0, dtype=dtype, nrows=2, sep=delimiter
        )
        if csv.shape[1] > 0:
            break
  \<close>
  The loop variable \<open>delimiter\<close> is read after the loop: it holds the delimiter of the last
  preview that ran, \<open>None\<close> here when no iteration ran (Python would raise \<open>NameError\<close>).
\<close>

definition delimiters :: "string list" where
  "delimiters = ['','', [CHR 0x09]]"

fun sniff :: "(string \<Rightarrow> error + 'v frame) \<Rightarrow> string list \<Rightarrow> string option \<Rightarrow> error + string option" where
  "sniff preview [] delimiter = Inr delimiter"
| "sniff preview (d # ds) delimiter =
     (case preview d of
        Inl e \<Rightarrow> Inl e
      | Inr csv \<Rightarrow> if 0 < length (columns csv) then Inr (Some d) else sniff preview ds (Some d))"

text \<open>
  \<^verbatim>\<open>
    csv = pd.read_csv(
        self.csv_path, index_col=index_cols, dtype=dtype, sep=delimiter
    )
    if idx_round_prec is not None:
        idx_name = csv.index.name
        csv.index = np.round(csv.index, idx_round_prec)
        csv.index.name = idx_name
    return csv
  \<close>
\<close>

definition read_with ::
  "('d, 'v) pandas \<Rightarrow> Csv \<Rightarrow> 'd option \<Rightarrow> int option \<Rightarrow> index_cols \<Rightarrow> string \<Rightarrow> error + 'v frame" where
  "read_with pd self dtype idx_round_prec index_col delimiter =
     (case read_csv pd (csv_path self) index_col dtype None delimiter of
        Inl e \<Rightarrow> Inl e
      | Inr csv \<Rightarrow>
          (case idx_round_prec of
             None \<Rightarrow> Inr csv
           | Some prec \<Rightarrow>
               (let nm = idx_name (frame_index csv)
                in case np_round pd (frame_index csv) prec of
                     Inl e \<Rightarrow> Inl e
                   | Inr idx \<Rightarrow> Inr (csv\<lparr>frame_index := idx\<lparr>idx_name := nm\<rparr>\<rparr>))))"

definition Csv_read ::
  "('d, 'v) pandas \<Rightarrow> Csv \<Rightarrow> 'd option \<Rightarrow> int option \<Rightarrow> index_cols \<Rightarrow> error + 'v frame" where
  "Csv_read pd self dtype idx_round_prec index_col =
     (case sniff (\<lambda>delimiter. read_csv pd (csv_path self) (IdxInt 0) dtype (Some 2) delimiter)
             delimiters None of
        Inl e \<Rightarrow> Inl e
      | Inr None \<Rightarrow> Inl NameError
      | Inr (Some delimiter) \<Rightarrow> read_with pd self dtype idx_round_prec index_col delimiter)"

section \<open>\<open>Csv.write\<close>, and reading what was written\<close>

text \<open>
  \<^verbatim>\<open>
    def write(self, db, float_format="%.4f") -> Path:
        self.log.debug(f"Write {self.csv_path}")
        db.to_csv(self.csv_path, float_format=float_format)
        return self.csv_path
  \<close>
  Writing changes the file that a later \<open>read_csv\<close> sees, so the files are a state here:
  a map from paths to contents. \<open>DataFrame.to_csv\<close> and \<open>read_csv\<close> are pandas's and are
  parameters: \<open>to_csv\<close> gives the content written for a frame, a path (whose extension
  selects the compression) and a float format, \<open>parse_csv\<close> what \<open>read_csv\<close> makes of the
  content found at a path; each returns the exception instead when pandas raises one.
  \<open>pandas_on\<close> is the reader that \<open>Csv_read\<close> takes, over given files; a path with no file
  raises.
\<close>

record ('d, 'v, 'c) pandas_io =
  to_csv :: "'v frame \<Rightarrow> path \<Rightarrow> string \<Rightarrow> error + 'c"
  parse_csv :: "path \<Rightarrow> 'c \<Rightarrow> index_cols \<Rightarrow> 'd option \<Rightarrow> nat option \<Rightarrow> string \<Rightarrow> error + 'v frame"
  round_index :: "'v index \<Rightarrow> int \<Rightarrow> error + 'v index"

definition pandas_on :: "('d, 'v, 'c) pandas_io \<Rightarrow> (path \<Rightarrow> 'c option) \<Rightarrow> ('d, 'v) pandas" where
  "pandas_on io fs =
     \<lparr>read_csv = (\<lambda>p index_col dtype nrows sep.
         case fs p of
           None \<Rightarrow> Inl (OtherError ''FileNotFoundError'')
         | Some c \<Rightarrow> parse_csv io p c index_col dtype nrows sep),
      np_round = round_index io\<rparr>"

text \<open>
  \<open>Csv_write\<close> returns the files as they are after the call, and the path.
\<close>

definition Csv_write ::
  "('d, 'v, 'c) pandas_io \<Rightarrow> (path \<Rightarrow> 'c option) \<Rightarrow> Csv \<Rightarrow> 'v frame \<Rightarrow> string
     \<Rightarrow> error + (path \<Rightarrow> 'c option) \<times> path" where
  "Csv_write io fs self db float_format =
     (case to_csv io db (csv_path self) float_format of
        Inl e \<Rightarrow> Inl e
      | Inr c \<Rightarrow> Inr (fs(csv_path self \<mapsto> c), csv_path self))"

text \<open>
  What the round trip asks of pandas itself, for a relation \<open>close float_format a b\<close> read
  as: \<open>a\<close> and \<open>b\<close> are equal up to the rounding that \<open>float_format\<close> implies. Of what
  \<open>to_csv\<close> wrote for a frame to an uncompressed \<open>.csv\<close> path, \<open>read_csv\<close> with \<open>sep=","\<close> and
  \<open>index_col=0\<close> returns a two-row preview with as many columns as the frame has and, for
  the whole file, a frame close to it; for a frame without columns, whose file has one
  field on each line, \<open>sep="\t"\<close> reads a close frame as well.
\<close>

definition reads_back ::
  "('d, 'v, 'c) pandas_io \<Rightarrow> (string \<Rightarrow> 'v frame \<Rightarrow> 'v frame \<Rightarrow> bool) \<Rightarrow> bool" where
  "reads_back io close =
     (\<forall>q db float_format c.
        suffix q = ''.csv'' \<and> to_csv io db q float_format = Inr c \<longrightarrow>
          (\<exists>pv db'.
             parse_csv io q c (IdxInt 0) None (Some 2) '','' = Inr pv \<and>
             length (columns pv) = length (columns db) \<and>
             parse_csv io q c (IdxInt 0) None None '','' = Inr db' \<and>
             close float_format db db') \<and>
          (columns db = [] \<longrightarrow>
             (\<exists>pv db'.
                parse_csv io q c (IdxInt 0) None (Some 2) [CHR 0x09] = Inr pv \<and>
                parse_csv io q c (IdxInt 0) None None [CHR 0x09] = Inr db' \<and>
                close float_format db db')))"

text \<open>
  An instance of these parameters, for the format \<open>%.4f\<close>: the content of a file is the frame
  with its values rounded to four decimals; it is read as it is with \<open>","\<close> (the first
  \<open>nrows\<close> rows of it for a preview), and as a frame without columns with another delimiter.
  Two frames are close when they differ by at most half a unit of the fourth decimal in
  each value.
\<close>

definition round_4f :: "real \<Rightarrow> real" where
  "round_4f x = of_int (round (x * 10000)) / 10000"

definition close_4f :: "string \<Rightarrow> real frame \<Rightarrow> real frame \<Rightarrow> bool" where
  "close_4f float_format a b =
     (frame_index a = frame_index b \<and> columns a = columns b \<and>
      list_all2 (list_all2 (\<lambda>x y. \<bar>x - y\<bar> \<le> 1 / 20000)) (rows a) (rows b))"

definition example_io :: "(unit, real, real frame) pandas_io" where
  "example_io =
     \<lparr>to_csv = (\<lambda>db q float_format.
         if float_format = ''%.4f'' then Inr (db\<lparr>rows := map (map round_4f) (rows db)\<rparr>)
         else Inl (OtherError ''format'')),
      parse_csv = (\<lambda>q c index_col dtype nrows sep.
         if sep = '','' \<or> columns c = [] then
           Inr (case nrows of
                  None \<Rightarrow> c
                | Some n \<Rightarrow> c\<lparr>frame_index := (frame_index c)\<lparr>idx_values := take n (idx_values (frame_index c))\<rparr>,
                              rows := take n (rows c)\<rparr>)
         else Inr \<lparr>frame_index = \<lparr>idx_name = None, idx_values = []\<rparr>, columns = [], rows = []\<rparr>),
      round_index = (\<lambda>i prec. Inr i)\<rparr>"

section \<open>The model pipeline\<close>

subsection \<open>Python values\<close>

text \<open>
  The keyword arguments of \<open>set_params\<close> and the mode flag are arbitrary Python objects.
  \<open>truthy\<close> is Python's truth value test, which \<open>if self.is_binary\<close> and
  \<open>if not self.is_binary\<close> apply. \<open>subscript obj key\<close> is \<open>obj[key]\<close> for a string
  key: a dictionary raises \<open>KeyError\<close> for a missing key, every other value of this type
  raises \<open>TypeError\<close> (not subscriptable, or indices must be integers).
\<close>

datatype pyval =
    PNone
  | PBool bool
  | PInt int
  | PFloat real
  | PStr string
  | PList "pyval list"
  | PDict "(pyval \<times> pyval) list"

fun truthy :: "pyval \<Rightarrow> bool" where
  "truthy PNone = False"
| "truthy (PBool b) = b"
| "truthy (PInt i) = (i \<noteq> 0)"
| "truthy (PFloat r) = (r \<noteq> 0)"
| "truthy (PStr s) = (s \<noteq> [])"
| "truthy (PList xs) = (xs \<noteq> [])"
| "truthy (PDict kvs) = (kvs \<noteq> [])"

fun subscript :: "pyval \<Rightarrow> string \<Rightarrow> error + pyval" where
  "subscript (PDict kvs) key =
     (case map_of kvs (PStr key) of None \<Rightarrow> Inl KeyError | Some v \<Rightarrow> Inr v)"
| "subscript v key = Inl TypeError"

subsection \<open>The one-hot encoder\<close>

text \<open>
  \<open>sklearn.preprocessing.OneHotEncoder(sparse_output=False)\<close>, for the one use the code
  makes of it: it is fitted on the one-column array of labels, so it has one feature.
  Its state is \<open>None\<close> until fitted, then the categories: the distinct labels, sorted.
  \<open>transform\<close> raises \<open>NotFittedError\<close> when not fitted and \<open>ValueError\<close> for an empty
  array, a row that is not one cell wide or a cell that is not a known category;
  \<open>inverse_transform\<close> raises \<open>ValueError\<close> unless every row has one entry for each
  category, and returns for each row the category at the first maximal entry.
\<close>

definition encoder_fit :: "string list list \<Rightarrow> string list" where
  "encoder_fit X = sort (remdups (concat X))"

definition one_hot :: "string list \<Rightarrow> string \<Rightarrow> real list" where
  "one_hot cats c = map (\<lambda>k. if k = c then 1 else 0) cats"

fun known_row :: "string list \<Rightarrow> pyval list \<Rightarrow> bool" where
  "known_row cats [PStr c] = (c \<in> set cats)"
| "known_row cats row = False"

fun encode_row :: "string list \<Rightarrow> pyval list \<Rightarrow> real list" where
  "encode_row cats [PStr c] = one_hot cats c"
| "encode_row cats row = []"

definition encoder_transform :: "string list option \<Rightarrow> pyval list list \<Rightarrow> error + real list list" where
  "encoder_transform enc y =
     (case enc of
        None \<Rightarrow> Inl NotFittedError
      | Some cats \<Rightarrow>
          if y = [] then Inl ValueError
          else if list_all (known_row cats) y then Inr (map (encode_row cats) y)
          else Inl ValueError)"

fun argmax :: "real list \<Rightarrow> nat" where
  "argmax [] = 0"
| "argmax [x] = 0"
| "argmax (x # y # ys) = (let j = argmax (y # ys) in if (y # ys) ! j \<le> x then 0 else Suc j)"

definition encoder_inverse_transform :: "string list option \<Rightarrow> real list list \<Rightarrow> error + string list list" where
  "encoder_inverse_transform enc y =
     (case enc of
        None \<Rightarrow> Inl NotFittedError
      | Some cats \<Rightarrow>
          if y = [] then Inl ValueError
          else if list_all (\<lambda>row. row \<noteq> [] \<and> length row = length cats) y
               then Inr (map (\<lambda>row. [cats ! argmax row]) y)
          else Inl ValueError)"

subsection \<open>The network and \<open>_Model\<close>\<close>

text \<open>
  \<open>__build\<close> describes the network to keras: two inputs, the convolution branch, the
  dense part and the output layer, then the compilation. The description is data here;
  creating and compiling the network, training it and running it are keras's and are
  parameters: \<open>k_compile\<close> returns the initial weights, \<open>k_fit\<close> the trained ones (given
  epochs and batch size), \<open>k_predict\<close> the output rows; each returns the exception
  instead when keras raises one.
\<close>

datatype layer =
    Input "nat list"
  | Conv1D nat nat string string
  | MaxPooling1D
  | Flatten
  | Concatenate
  | Dense nat string

text \<open>The number of units of a dense layer, the width of what it puts out.\<close>

fun units :: "layer \<Rightarrow> nat" where
  "units (Dense n a) = n"
| "units l = 0"

record keras_model =
  cnn_in :: layer
  tabular_in :: layer
  cnn :: "layer list"
  dense :: "layer list"
  output_layer :: layer
  optimizer :: string
  loss :: string
  metrics :: "string list"

record ndarray =
  shape :: "nat list"
  data :: "real list"

record 'w keras =
  k_compile :: "keras_model \<Rightarrow> error + 'w"
  k_fit :: "keras_model \<Rightarrow> 'w \<Rightarrow> ndarray \<Rightarrow> ndarray \<Rightarrow> pyval list list \<Rightarrow> nat \<Rightarrow> nat \<Rightarrow> error + 'w"
  k_predict :: "keras_model \<Rightarrow> 'w \<Rightarrow> ndarray \<Rightarrow> ndarray \<Rightarrow> error + real list list"

text \<open>
  \<^verbatim>\<open>
    def __init__(self, log=None):
        self.__model: keras.models.Model = None
        self.is_binary: Union[bool, None] = None
        self.__encoder = OneHotEncoder(sparse_output=False)
        self.__labels = np.array([["Good"], ["Acceptable"], ["Marginal"], ["Poor"]])
  \<close>
\<close>

record 'w Model =
  model :: "(keras_model \<times> 'w) option"
  is_binary :: pyval
  encoder :: "string list option"
  labels :: "string list list"

definition Model_init :: "'w Model" where
  "Model_init =
     \<lparr>model = None, is_binary = PNone, encoder = None,
      labels = [[''Good''], [''Acceptable''], [''Marginal''], [''Poor'']]\<rparr>"

text \<open>The fixed label vocabulary, as a set.\<close>

definition vocabulary :: "string set" where
  "vocabulary = {''Good'', ''Acceptable'', ''Marginal'', ''Poor''}"

text \<open>
  \<^verbatim>\<open>
    cnn_in = keras.layers.Input(shape=input_dim)
    tabular_in = keras.layers.Input(shape=(input_dim_2d,))
    cnn = keras.layers.Conv1D(filters=5, kernel_size=100, activation="relu", padding="same")(cnn_in)
    cnn = keras.layers.MaxPooling1D()(cnn)
    cnn = keras.layers.Flatten()(cnn)
    dense = keras.layers.Concatenate()([cnn, tabular_in])
    dense = keras.layers.Dense(30, activation="relu")(dense)
    if self.is_binary:
        output = keras.layers.Dense(1, activation="sigmoid")(dense)
    else:
        output = keras.layers.Dense(self.__labels.shape[0], activation="softmax")(dense)
    self.__model = keras.models.Model(inputs=[cnn_in, tabular_in], outputs=output)
    loss = "binary_crossentropy" if self.is_binary else "categorical_crossentropy"
    self.__model.compile(optimizer="adam", loss=loss, metrics=["accuracy"])
  \<close>
\<close>

definition network :: "'w Model \<Rightarrow> nat list \<Rightarrow> nat \<Rightarrow> keras_model" where
  "network self input_dim input_dim_2d =
     \<lparr>cnn_in = Input input_dim,
      tabular_in = Input [input_dim_2d],
      cnn = [Conv1D 5 100 ''relu'' ''same'', MaxPooling1D, Flatten],
      dense = [Concatenate, Dense 30 ''relu''],
      output_layer = (if truthy (is_binary self) then Dense 1 ''sigmoid''
                else Dense (length (labels self)) ''softmax''),
      optimizer = ''adam'',
      loss = (if truthy (is_binary self) then ''binary_crossentropy''
              else ''categorical_crossentropy''),
      metrics = [''accuracy'']\<rparr>"

definition build :: "'w keras \<Rightarrow> 'w Model \<Rightarrow> nat list \<Rightarrow> nat \<Rightarrow> error + 'w Model" where
  "build K self input_dim input_dim_2d =
     (let net = network self input_dim input_dim_2d
      in case k_compile K net of
           Inl e \<Rightarrow> Inl e
         | Inr w \<Rightarrow> Inr (self\<lparr>model := Some (net, w)\<rparr>))"

text \<open>
  \<^verbatim>\<open>
    def fit(self, x, x_2d, y):
        self.__build(input_dim=x.shape[1:], input_dim_2d=x_2d.shape[-1])
        if not self.is_binary:
            self.__encoder.fit(self.__labels)
            y = self.__encoder.transform(y)
        self.__model.fit([x, x_2d], y, epochs=3, batch_size=32)
  \<close>
  \<open>x.shape[1:]\<close> is the shape without its first entry (empty for an empty shape);
  \<open>x_2d.shape[-1]\<close> raises \<open>IndexError\<close> for an empty shape. The targets are a
  two-dimensional array, a list of rows.
\<close>

definition fit :: "'w keras \<Rightarrow> 'w Model \<Rightarrow> ndarray \<Rightarrow> ndarray \<Rightarrow> pyval list list \<Rightarrow> error + 'w Model" where
  "fit K self x x_2d y =
     (if shape x_2d = [] then Inl IndexError
      else case build K self (drop 1 (shape x)) (last (shape x_2d)) of
        Inl e \<Rightarrow> Inl e
      | Inr self1 \<Rightarrow>
          (case (if \<not> truthy (is_binary self1)
                 then (let self2 = self1\<lparr>encoder := Some (encoder_fit (labels self1))\<rparr>
                       in case encoder_transform (encoder self2) y of
                            Inl e \<Rightarrow> Inl e
                          | Inr y' \<Rightarrow> Inr (self2, map (map PFloat) y'))
                 else Inr (self1, y)) of
             Inl e \<Rightarrow> Inl e
           | Inr (self3, y3) \<Rightarrow>
               (case model self3 of
                  None \<Rightarrow> Inl AttributeError
                | Some (net, w) \<Rightarrow>
                    (case k_fit K net w x x_2d y3 3 32 of
                       Inl e \<Rightarrow> Inl e
                     | Inr w' \<Rightarrow> Inr (self3\<lparr>model := Some (net, w')\<rparr>)))))"

text \<open>
  \<^verbatim>\<open>
    def predict(self, x, x_2d):
        y = self.__model.predict([x, x_2d])
        if not self.is_binary:
            y = self.__encoder.inverse_transform(y)
        return y
  \<close>
  Before the first \<open>fit\<close> the network is \<open>None\<close> and the call raises \<open>AttributeError\<close>.
\<close>

definition predict :: "'w keras \<Rightarrow> 'w Model \<Rightarrow> ndarray \<Rightarrow> ndarray \<Rightarrow> error + pyval list list" where
  "predict K self x x_2d =
     (case model self of
        None \<Rightarrow> Inl AttributeError
      | Some (net, w) \<Rightarrow>
          (case k_predict K net w x x_2d of
             Inl e \<Rightarrow> Inl e
           | Inr y \<Rightarrow>
               if \<not> truthy (is_binary self)
               then (case encoder_inverse_transform (encoder self) y of
                       Inl e \<Rightarrow> Inl e
                     | Inr l \<Rightarrow> Inr (map (map PStr) l))
               else Inr (map (map PFloat) y)))"

subsection \<open>\<open>ExampleCnnMixedPipe\<close>\<close>

text \<open>
  The pipe holds its estimator (the working directory and the logger of the base class
  play no part). \<open>set_params\<close> may raise before it assigns, so it returns the outcome
  together with the state the object is left in.
  \<^verbatim>\<open>
    def set_params(self, **parameters) -> None:
        self.__estimator.is_binary = parameters["Estimator"]["is_binary"]
  \<close>
  \<open>parameters\<close> is the dictionary of the keyword arguments, keyed by strings.
\<close>

record 'w ExampleCnnMixedPipe =
  estimator :: "'w Model"

definition ExampleCnnMixedPipe_init :: "'w ExampleCnnMixedPipe" where
  "ExampleCnnMixedPipe_init = \<lparr>estimator = Model_init\<rparr>"

definition set_params ::
  "'w ExampleCnnMixedPipe \<Rightarrow> (string \<times> pyval) list \<Rightarrow> (error + unit) \<times> 'w ExampleCnnMixedPipe" where
  "set_params self parameters =
     (case (case map_of parameters ''Estimator'' of
              None \<Rightarrow> Inl KeyError
            | Some est \<Rightarrow> subscript est ''is_binary'') of
        Inl e \<Rightarrow> (Inl e, self)
      | Inr v \<Rightarrow> (Inr (), self\<lparr>estimator := (estimator self)\<lparr>is_binary := v\<rparr>\<rparr>))"

text \<open>
  The nested key path of the claim about \<open>set_params\<close>, in the specification's words: it
  exists when \<open>parameters\<close> has the key \<open>Estimator\<close>, the value there is a mapping and
  that mapping has the key \<open>is_binary\<close>; \<open>key_path\<close> is then the value found.
\<close>

definition key_path :: "(string \<times> pyval) list \<Rightarrow> pyval option" where
  "key_path parameters =
     (case map_of parameters ''Estimator'' of
        Some (PDict kvs) \<Rightarrow> map_of kvs (PStr ''is_binary'')
      | _ \<Rightarrow> None)"

fun is_dict :: "pyval \<Rightarrow> bool" where
  "is_dict (PDict kvs) = True"
| "is_dict v = False"

definition pipe_fit ::
  "'w keras \<Rightarrow> 'w ExampleCnnMixedPipe \<Rightarrow> ndarray \<Rightarrow> ndarray \<Rightarrow> pyval list list \<Rightarrow> error + 'w ExampleCnnMixedPipe" where
  "pipe_fit K self x x_2d y =
     (case fit K (estimator self) x x_2d y of
        Inl e \<Rightarrow> Inl e
      | Inr m \<Rightarrow> Inr (self\<lparr>estimator := m\<rparr>))"

definition pipe_predict ::
  "'w keras \<Rightarrow> 'w ExampleCnnMixedPipe \<Rightarrow> ndarray \<Rightarrow> ndarray \<Rightarrow> error + pyval list list" where
  "pipe_predict K self x x_2d = predict K (estimator self) x x_2d"

section \<open>Facts about names, suffixes and the stripping loop\<close>

declare spec_strip.simps [simp del]

lemma rfind_bounds: "- 1 \<le> rfind s c \<and> rfind s c < int (length s)"
  by (induction s) (auto simp: Let_def)

lemma rfind_notin: "c \<notin> set s \<Longrightarrow> rfind s c = - 1"
  by (induction s) (auto simp: Let_def)

lemma rfind_append: "c \<notin> set e \<Longrightarrow> rfind (t @ c # e) c = int (length t)"
  by (induction t) (auto simp: Let_def rfind_notin)

lemma name_suffix_append:
  "t \<noteq> [] \<Longrightarrow> e \<noteq> [] \<Longrightarrow> CHR ''.'' \<notin> set e \<Longrightarrow> name_suffix (t @ CHR ''.'' # e) = CHR ''.'' # e"
  by (simp add: name_suffix_def rfind_append)

lemma name_stem_append:
  "t \<noteq> [] \<Longrightarrow> e \<noteq> [] \<Longrightarrow> CHR ''.'' \<notin> set e \<Longrightarrow> name_stem (t @ CHR ''.'' # e) = t"
  by (simp add: name_stem_def rfind_append)

lemma stem_suffix: "name_stem nm @ name_suffix nm = nm"
  by (simp add: name_stem_def name_suffix_def Let_def)

lemma name_stem_nonempty: "nm \<noteq> [] \<Longrightarrow> name_stem nm \<noteq> []"
  by (auto simp: name_stem_def Let_def)

lemma name_stem_length: "name_suffix nm \<noteq> [] \<Longrightarrow> length (name_stem nm) < length nm"
  by (auto simp: name_stem_def name_suffix_def Let_def split: if_splits)

lemma name_stem_id: "name_suffix nm = [] \<Longrightarrow> name_stem nm = nm"
  by (auto simp: name_stem_def name_suffix_def Let_def split: if_splits)

lemma name_stem_take: "name_stem nm = take (length nm - length (name_suffix nm)) nm"
  using rfind_bounds [of nm "CHR ''.''"]
  by (auto simp: name_stem_def name_suffix_def Let_def)

lemma name_set_name: "name (set_name p nm) = nm"
  by (simp add: name_def set_name_def)

lemma set_name_set_name: "set_name (set_name p a) b = set_name p b"
  by (simp add: set_name_def)

lemma set_name_name: "parts p \<noteq> [] \<Longrightarrow> set_name p (name p) = p"
  by (simp add: set_name_def name_def)

lemma with_suffix_closed:
  "name p \<noteq> [] \<Longrightarrow> CHR ''/'' \<notin> set sfx \<Longrightarrow> sfx = [] \<or> (startswith sfx ''.'' \<and> sfx \<noteq> ''.'')
   \<Longrightarrow> with_suffix p sfx = Inr (set_name p (name_stem (name p) @ sfx))"
  by (auto simp: with_suffix_def Let_def set_name_def suffix_def name_stem_id name_stem_take)

lemma name_nonempty_parts: "name p \<noteq> [] \<Longrightarrow> parts p \<noteq> []"
  by (auto simp: name_def)

lemma strip_loop_default:
  "name p = nm \<Longrightarrow> nm \<noteq> [] \<Longrightarrow> strip_loop ''.csv'' ''.zip'' p = Some (Inr (set_name p (spec_strip nm)))"
proof (induction nm arbitrary: p rule: spec_strip.induct)
  case (1 nm)
  show ?case
  proof (cases "name_suffix nm \<in> {''.csv'', ''.zip''}")
    case True
    have ws: "with_suffix p [] = Inr (set_name p (name_stem nm))"
      using "1.prems" by (simp add: with_suffix_closed)
    have "strip_loop ''.csv'' ''.zip'' (set_name p (name_stem nm))
          = Some (Inr (set_name (set_name p (name_stem nm)) (spec_strip (name_stem nm))))"
      using "1.IH" [OF True, of "set_name p (name_stem nm)"] "1.prems"
      by (simp add: name_set_name name_stem_nonempty)
    moreover have "spec_strip nm = spec_strip (name_stem nm)"
      using True by (subst spec_strip.simps) simp
    ultimately show ?thesis
      using True "1.prems" ws
      by (subst strip_loop.simps) (simp add: suffix_def set_name_set_name)
  next
    case False
    then have "spec_strip nm = nm" by (subst spec_strip.simps) simp
    then show ?thesis
      using False "1.prems"
      by (subst strip_loop.simps) (auto simp: suffix_def set_name_name name_nonempty_parts)
  qed
qed

lemma strip_loop_empty:
  "name p = [] \<Longrightarrow> strip_loop ''.csv'' ''.zip'' p = Some (Inr p)"
  by (subst strip_loop.simps) (simp add: suffix_def name_suffix_def)

lemma spec_strip_nonempty: "nm \<noteq> [] \<Longrightarrow> spec_strip nm \<noteq> []"
proof (induction nm rule: spec_strip.induct)
  case (1 nm)
  then show ?case
    by (subst spec_strip.simps) (auto simp: name_stem_nonempty)
qed

lemma spec_strip_suffix: "name_suffix (spec_strip nm) \<notin> {''.csv'', ''.zip''}"
proof (induction nm rule: spec_strip.induct)
  case (1 nm)
  then show ?case
    by (subst spec_strip.simps) auto
qed

lemma Csv_default_closed:
  "Csv_default p compress =
     (if name p = [] then Some (Inl ValueError)
      else Some (Inr \<lparr>csv_path = set_name p (name_stem (spec_strip (name p)) @
                         (if suffix p = ''.zip'' \<or> compress then ''.csv.zip'' else ''.csv''))\<rparr>))"
proof (cases "name p = []")
  case True
  then show ?thesis
    by (simp add: Csv_default_def Csv_init_def strip_loop_empty with_suffix_def suffix_def name_suffix_def startswith_def)
next
  case False
  then show ?thesis
    by (simp add: Csv_default_def Csv_init_def strip_loop_default with_suffix_closed
        name_set_name spec_strip_nonempty set_name_set_name startswith_def)
qed


lemma name_stem_le: "length (name_stem nm) \<le> length nm"
  by (simp add: name_stem_def Let_def)

lemma spec_strip_le: "length (spec_strip nm) \<le> length nm"
proof (induction nm rule: spec_strip.induct)
  case (1 nm)
  show ?case
  proof (cases "name_suffix nm \<in> {''.csv'', ''.zip''}")
    case True
    then have "spec_strip nm = spec_strip (name_stem nm)"
      by (subst spec_strip.simps) simp
    with "1.IH" [OF True] name_stem_le [of nm] show ?thesis by simp
  next
    case False
    then show ?thesis by (subst spec_strip.simps) simp
  qed
qed

lemma spec_strip_csv: "t \<noteq> [] \<Longrightarrow> spec_strip (t @ ''.csv'') = spec_strip t"
  using name_suffix_append [of t "''csv''"] name_stem_append [of t "''csv''"]
  by (subst spec_strip.simps) simp

lemma spec_strip_csv_zip: "t \<noteq> [] \<Longrightarrow> spec_strip (t @ ''.csv.zip'') = spec_strip t"
  using name_suffix_append [of "t @ ''.csv''" "''zip''"] name_stem_append [of "t @ ''.csv''" "''zip''"]
    spec_strip_csv [of t]
  by (subst spec_strip.simps) simp

lemma name_suffix_csv: "t \<noteq> [] \<Longrightarrow> name_suffix (t @ ''.csv'') = ''.csv''"
  using name_suffix_append [of t "''csv''"] by simp

lemma name_suffix_csv_zip: "name_suffix (t @ ''.csv.zip'') = ''.zip''"
  using name_suffix_append [of "t @ ''.csv''" "''zip''"] by simp

lemma stem_strip_fixed: "(name_stem (spec_strip t) = t) = (name_suffix t = [])"
proof
  assume eq: "name_stem (spec_strip t) = t"
  have notin: "name_suffix t \<notin> {''.csv'', ''.zip''}"
  proof
    assume m: "name_suffix t \<in> {''.csv'', ''.zip''}"
    then have "spec_strip t = spec_strip (name_stem t)"
      by (subst spec_strip.simps) simp
    moreover from m have "length (name_stem t) < length t"
      by (auto intro: name_stem_length)
    ultimately have "length (name_stem (spec_strip t)) < length t"
      using name_stem_le [of "spec_strip t"] spec_strip_le [of "name_stem t"] by simp
    with eq show False by simp
  qed
  then have "spec_strip t = t" by (subst spec_strip.simps) simp
  with eq have "name_stem t = t" by simp
  then show "name_suffix t = []"
    using name_stem_length [of t] by auto
next
  assume e: "name_suffix t = []"
  then have "spec_strip t = t" by (subst spec_strip.simps) simp
  with e show "name_stem (spec_strip t) = t" by (simp add: name_stem_id)
qed

lemma endswith_append: "endswith (a @ t) t"
  by (simp add: endswith_def)

lemma join_parts_snoc: "join_parts (xs @ [x]) = (if xs = [] then x else join_parts xs @ ''/'' @ x)"
  by (induction xs rule: join_parts.induct) auto

lemma endswith_prepend: "endswith nm t \<Longrightarrow> endswith (a @ nm) t"
  by (auto simp: endswith_def)

lemma str_path_set_name: "endswith nm t \<Longrightarrow> endswith (str_path (set_name p nm)) t"
proof -
  assume e: "endswith nm t"
  have "\<exists>a. str_path (set_name p nm) = a @ nm"
  proof (cases "butlast (parts p) = []")
    case True
    then have "str_path (set_name p nm) = (if anchor p = [] \<and> False then ''.'' else anchor p @ nm)"
      by (simp add: str_path_def set_name_def)
    then show ?thesis by simp
  next
    case False
    then have "str_path (set_name p nm) = (anchor p @ join_parts (butlast (parts p)) @ ''/'') @ nm"
      by (simp add: str_path_def set_name_def join_parts_snoc)
    then show ?thesis by blast
  qed
  with e show ?thesis by (auto simp: endswith_prepend)
qed

lemma suffix_nonempty_name: "suffix p \<noteq> [] \<Longrightarrow> name p \<noteq> []"
  by (auto simp: suffix_def name_suffix_def)

lemma set_name_inject: "(set_name p a = set_name p b) = (a = b)"
  by (metis name_set_name)


section \<open>Claims about \<open>Csv.__init__\<close>\<close>

text \<open>
  Claim C2. With the default suffixes, if the final suffix of the given path is the
  compression suffix \<open>.zip\<close>, then for either value of the \<open>compress\<close> flag the
  construction returns, and the \<open>csv_path\<close> it computes ends in \<open>.csv.zip\<close> (its name
  and its string form do), its final suffix being \<open>.zip\<close>.
\<close>

theorem zip_suffix_forces_compression:
  assumes "suffix p = ''.zip''"
  shows "\<exists>q. Csv_default p compress = Some (Inr \<lparr>csv_path = q\<rparr>) \<and>
             endswith (name q) ''.csv.zip'' \<and> endswith (str_path q) ''.csv.zip'' \<and>
             suffix q = ''.zip''"
proof -
  let ?nm = "name_stem (spec_strip (name p)) @ ''.csv.zip''"
  from assms have "name p \<noteq> []" using suffix_nonempty_name [of p] by auto
  with assms have "Csv_default p compress = Some (Inr \<lparr>csv_path = set_name p ?nm\<rparr>)"
    by (simp add: Csv_default_closed)
  moreover have "endswith ?nm ''.csv.zip''" by (rule endswith_append)
  moreover from this have "endswith (str_path (set_name p ?nm)) ''.csv.zip''"
    by (rule str_path_set_name)
  moreover have "suffix (set_name p ?nm) = ''.zip''"
    by (simp only: suffix_def name_set_name name_suffix_csv_zip)
  ultimately show ?thesis by (simp add: name_set_name)
qed

theorem zip_suffix_forces_compression_witness:
  "suffix \<lparr>anchor = [], parts = [''data'', ''table.zip'']\<rparr> = ''.zip'' \<and>
   Csv_default \<lparr>anchor = [], parts = [''data'', ''table.zip'']\<rparr> False
     = Some (Inr \<lparr>csv_path = \<lparr>anchor = [], parts = [''data'', ''table.csv.zip'']\<rparr>\<rparr>) \<and>
   (\<exists>q. Csv_default \<lparr>anchor = [], parts = [''data'', ''table.zip'']\<rparr> False
            = Some (Inr \<lparr>csv_path = q\<rparr>) \<and>
        endswith (name q) ''.csv.zip'' \<and> endswith (str_path q) ''.csv.zip'' \<and>
        suffix q = ''.zip'')"
proof -
  have h: "suffix \<lparr>anchor = [], parts = [''data'', ''table.zip'']\<rparr> = ''.zip''"
    by (simp add: suffix_def name_def name_suffix_def)
  have v: "Csv_default \<lparr>anchor = [], parts = [''data'', ''table.zip'']\<rparr> False
     = Some (Inr \<lparr>csv_path = \<lparr>anchor = [], parts = [''data'', ''table.csv.zip'']\<rparr>\<rparr>)"
    by (simp add: Csv_default_def Csv_init_def strip_loop.simps with_suffix_def suffix_def
        name_def name_suffix_def startswith_def)
  from h v zip_suffix_forces_compression [OF h, of False] show ?thesis by blast
qed

text \<open>
  Claim C3, as stated, fails. The claim has the canonical suffix appended to what the
  stripping leaves; the code calls \<open>with_suffix\<close>, which replaces a suffix that is
  left. For \<open>data/table.txt\<close> and \<open>compress=False\<close> nothing is stripped, the claim's
  algorithm gives \<open>data/table.txt.csv\<close> and the code gives \<open>data/table.csv\<close>.
\<close>

theorem append_after_strip_counterexample:
  "Csv_default \<lparr>anchor = [], parts = [''data'', ''table.txt'']\<rparr> False
     = Some (Inr \<lparr>csv_path = \<lparr>anchor = [], parts = [''data'', ''table.csv'']\<rparr>\<rparr>) \<and>
   spec_normalize \<lparr>anchor = [], parts = [''data'', ''table.txt'']\<rparr> False
     = \<lparr>anchor = [], parts = [''data'', ''table.txt.csv'']\<rparr> \<and>
   Csv_default \<lparr>anchor = [], parts = [''data'', ''table.txt'']\<rparr> False
     \<noteq> Some (Inr \<lparr>csv_path = spec_normalize \<lparr>anchor = [], parts = [''data'', ''table.txt'']\<rparr> False\<rparr>)"
  by (simp add: Csv_default_def Csv_init_def strip_loop.simps with_suffix_def suffix_def
        name_def name_suffix_def startswith_def spec_normalize_def set_name_def spec_strip.simps)

text \<open>
  Claim C3, amended. For a path with a non-empty name and the default suffixes, the
  construction strips the final suffixes equal to \<open>.csv\<close> or \<open>.zip\<close> repeatedly from the
  end, then replaces the final suffix that is left, if any, by \<open>.csv\<close> when not
  compressing and by \<open>.csv.zip\<close> when compressing (by the flag or forced by a \<open>.zip\<close>
  suffix); when no suffix is left this appends, and the result is the claim's. A path
  with an empty name raises \<open>ValueError\<close>. For \<open>data/table.csv\<close> the result is
  \<open>data/table.csv\<close> with \<open>compress=False\<close> and \<open>data/table.csv.zip\<close> with
  \<open>compress=True\<close>.
\<close>

theorem normalisation_replaces_remaining_suffix:
  "(name p \<noteq> [] \<longrightarrow>
      Csv_default p compress =
        Some (Inr \<lparr>csv_path = set_name p (name_stem (spec_strip (name p)) @
                (if suffix p = ''.zip'' \<or> compress then ''.csv.zip'' else ''.csv''))\<rparr>)) \<and>
   (name p \<noteq> [] \<and> name_suffix (spec_strip (name p)) = [] \<longrightarrow>
      Csv_default p compress = Some (Inr \<lparr>csv_path = spec_normalize p compress\<rparr>)) \<and>
   (name p = [] \<longrightarrow> Csv_default p compress = Some (Inl ValueError)) \<and>
   Csv_default \<lparr>anchor = [], parts = [''data'', ''table.csv'']\<rparr> False
     = Some (Inr \<lparr>csv_path = \<lparr>anchor = [], parts = [''data'', ''table.csv'']\<rparr>\<rparr>) \<and>
   Csv_default \<lparr>anchor = [], parts = [''data'', ''table.csv'']\<rparr> True
     = Some (Inr \<lparr>csv_path = \<lparr>anchor = [], parts = [''data'', ''table.csv.zip'']\<rparr>\<rparr>) \<and>
   str_path \<lparr>anchor = [], parts = [''data'', ''table.csv'']\<rparr> = ''data/table.csv'' \<and>
   str_path \<lparr>anchor = [], parts = [''data'', ''table.csv.zip'']\<rparr> = ''data/table.csv.zip''"
proof -
  have ex1: "Csv_default \<lparr>anchor = [], parts = [''data'', ''table.csv'']\<rparr> False
     = Some (Inr \<lparr>csv_path = \<lparr>anchor = [], parts = [''data'', ''table.csv'']\<rparr>\<rparr>)"
    by (simp add: Csv_default_def Csv_init_def strip_loop.simps with_suffix_def suffix_def
        name_def name_suffix_def startswith_def)
  have ex2: "Csv_default \<lparr>anchor = [], parts = [''data'', ''table.csv'']\<rparr> True
     = Some (Inr \<lparr>csv_path = \<lparr>anchor = [], parts = [''data'', ''table.csv.zip'']\<rparr>\<rparr>)"
    by (simp add: Csv_default_def Csv_init_def strip_loop.simps with_suffix_def suffix_def
        name_def name_suffix_def startswith_def)
  have s: "str_path \<lparr>anchor = [], parts = [''data'', ''table.csv'']\<rparr> = ''data/table.csv''"
    "str_path \<lparr>anchor = [], parts = [''data'', ''table.csv.zip'']\<rparr> = ''data/table.csv.zip''"
    by (simp_all add: str_path_def)
  have a: "name p \<noteq> [] \<longrightarrow> Csv_default p compress =
        Some (Inr \<lparr>csv_path = set_name p (name_stem (spec_strip (name p)) @
                (if suffix p = ''.zip'' \<or> compress then ''.csv.zip'' else ''.csv''))\<rparr>)"
    by (simp add: Csv_default_closed)
  have b: "name p \<noteq> [] \<and> name_suffix (spec_strip (name p)) = [] \<longrightarrow>
      Csv_default p compress = Some (Inr \<lparr>csv_path = spec_normalize p compress\<rparr>)"
    by (simp add: Csv_default_closed spec_normalize_def name_stem_id)
  have c: "name p = [] \<longrightarrow> Csv_default p compress = Some (Inl ValueError)"
    by (simp add: Csv_default_closed)
  from a b c ex1 ex2 s show ?thesis by blast
qed

theorem normalisation_replaces_remaining_suffix_witness:
  "name \<lparr>anchor = [], parts = [''data'', ''table.csv.zip.txt'']\<rparr> \<noteq> [] \<and>
   Csv_default \<lparr>anchor = [], parts = [''data'', ''table.csv.zip.txt'']\<rparr> False
     = Some (Inr \<lparr>csv_path = \<lparr>anchor = [], parts = [''data'', ''table.csv.zip.csv'']\<rparr>\<rparr>) \<and>
   name_suffix (spec_strip (name \<lparr>anchor = [], parts = [''data'', ''table.csv.zip'']\<rparr>)) = [] \<and>
   Csv_default \<lparr>anchor = [], parts = [''data'', ''table.csv.zip'']\<rparr> False
     = Some (Inr \<lparr>csv_path = \<lparr>anchor = [], parts = [''data'', ''table.csv.zip'']\<rparr>\<rparr>) \<and>
   name \<lparr>anchor = ''/'', parts = []\<rparr> = [] \<and>
   Csv_default \<lparr>anchor = ''/'', parts = []\<rparr> True = Some (Inl ValueError)"
proof -
  let ?p = "\<lparr>anchor = [], parts = [''data'', ''table.csv.zip.txt'']\<rparr>"
  let ?q = "\<lparr>anchor = [], parts = [''data'', ''table.csv.zip'']\<rparr>"
  let ?r = "\<lparr>anchor = ''/'', parts = []\<rparr>"
  have np: "name ?p = ''table.csv.zip.txt''" and nq: "name ?q = ''table.csv.zip''"
    and nr: "name ?r = []"
    by (simp_all add: name_def)
  have sp: "spec_strip ''table.csv.zip.txt'' = ''table.csv.zip.txt''"
    by (simp add: spec_strip.simps name_suffix_def)
  have sq: "spec_strip ''table.csv.zip'' = ''table''"
    by (simp add: spec_strip.simps name_suffix_def name_stem_def)
  have sq': "name_suffix (spec_strip (name ?q)) = []"
    by (simp add: nq sq name_suffix_def)
  have "Csv_default ?p False =
        Some (Inr \<lparr>csv_path = set_name ?p (name_stem (spec_strip (name ?p)) @
                (if suffix ?p = ''.zip'' \<or> False then ''.csv.zip'' else ''.csv''))\<rparr>)"
    by (rule mp [OF normalisation_replaces_remaining_suffix [of ?p False, THEN conjunct1]])
       (simp add: np)
  moreover have "set_name ?p (name_stem (spec_strip (name ?p)) @
                (if suffix ?p = ''.zip'' \<or> False then ''.csv.zip'' else ''.csv''))
       = \<lparr>anchor = [], parts = [''data'', ''table.csv.zip.csv'']\<rparr>"
    by (simp add: suffix_def np sp set_name_def name_stem_def name_suffix_def)
  ultimately have A: "Csv_default ?p False =
       Some (Inr \<lparr>csv_path = \<lparr>anchor = [], parts = [''data'', ''table.csv.zip.csv'']\<rparr>\<rparr>)"
    by simp
  have "Csv_default ?q False = Some (Inr \<lparr>csv_path = spec_normalize ?q False\<rparr>)"
    by (rule mp [OF normalisation_replaces_remaining_suffix
          [of ?q False, THEN conjunct2, THEN conjunct1]])
       (simp add: nq sq name_suffix_def)
  moreover have "spec_normalize ?q False = ?q"
    by (simp add: spec_normalize_def suffix_def nq sq set_name_def name_suffix_def)
  ultimately have B: "Csv_default ?q False = Some (Inr \<lparr>csv_path = ?q\<rparr>)"
    by simp
  have C: "Csv_default ?r True = Some (Inl ValueError)"
    by (rule mp [OF normalisation_replaces_remaining_suffix
          [of ?r True, THEN conjunct2, THEN conjunct2, THEN conjunct1]])
       (simp add: nr)
  from A B C np nr sq' show ?thesis by simp
qed

text \<open>
  Claim C4, as stated, fails: the derived path need not be a fixpoint. From
  \<open>data/results.2024.txt\<close> the construction derives \<open>data/results.2024.csv\<close>; from that
  path and the same flag it derives \<open>data/results.csv\<close>, since after stripping \<open>.csv\<close>
  the suffix \<open>.2024\<close> is the one \<open>with_suffix\<close> replaces.
\<close>

theorem derived_path_not_fixpoint_counterexample:
  "Csv_default \<lparr>anchor = [], parts = [''data'', ''results.2024.txt'']\<rparr> False
     = Some (Inr \<lparr>csv_path = \<lparr>anchor = [], parts = [''data'', ''results.2024.csv'']\<rparr>\<rparr>) \<and>
   Csv_default \<lparr>anchor = [], parts = [''data'', ''results.2024.csv'']\<rparr> False
     = Some (Inr \<lparr>csv_path = \<lparr>anchor = [], parts = [''data'', ''results.csv'']\<rparr>\<rparr>) \<and>
   \<lparr>anchor = [], parts = [''data'', ''results.2024.csv'']\<rparr>
     \<noteq> \<lparr>anchor = [], parts = [''data'', ''results.csv'']\<rparr>"
  by (simp add: Csv_default_def Csv_init_def strip_loop.simps with_suffix_def suffix_def
        name_def name_suffix_def startswith_def)

text \<open>
  Claim C4, amended. The derivation is deterministic: equal arguments give equal results.
  When the construction succeeds, constructing again from the derived path with the same
  flag yields the same path exactly when the name that is left after stripping the final
  \<open>.csv\<close>/\<open>.zip\<close> suffixes and then removing the one suffix \<open>with_suffix\<close> replaces has no
  suffix of its own (so, in particular, whenever stripping leaves a name without suffix).
\<close>

theorem derived_path_fixpoint_iff:
  "(p = p' \<and> compress = compress' \<longrightarrow> Csv_default p compress = Csv_default p' compress') \<and>
   (Csv_default p compress = Some (Inr c) \<longrightarrow>
      (Csv_default (csv_path c) compress = Some (Inr c))
        = (name_suffix (name_stem (spec_strip (name p))) = []))"
proof -
  have "(Csv_default (csv_path c) compress = Some (Inr c))
        = (name_suffix (name_stem (spec_strip (name p))) = [])"
    if ok: "Csv_default p compress = Some (Inr c)"
  proof -
    define t where "t = name_stem (spec_strip (name p))"
    define z where "z = (suffix p = ''.zip'' \<or> compress)"
    define ext where "ext = (if z then ''.csv.zip'' else ''.csv'')"
    from ok have np: "name p \<noteq> []"
      by (auto simp: Csv_default_closed split: if_splits)
    then have t: "t \<noteq> []"
      by (simp add: t_def name_stem_nonempty spec_strip_nonempty)
    from ok np have c: "c = \<lparr>csv_path = set_name p (t @ ext)\<rparr>"
      by (simp add: Csv_default_closed t_def ext_def z_def)
    have sfx: "suffix (set_name p (t @ ext)) = (if z then ''.zip'' else ''.csv'')"
      using t by (simp add: suffix_def name_set_name ext_def name_suffix_csv name_suffix_csv_zip)
    have z': "(suffix (set_name p (t @ ext)) = ''.zip'' \<or> compress) = z"
      by (auto simp: sfx z_def)
    have st: "spec_strip (t @ ext) = spec_strip t"
      using t by (simp add: ext_def spec_strip_csv spec_strip_csv_zip)
    have "Csv_default (set_name p (t @ ext)) compress
          = Some (Inr \<lparr>csv_path = set_name p (name_stem (spec_strip t) @ ext)\<rparr>)"
    proof -
      have "Csv_default (set_name p (t @ ext)) compress
          = Some (Inr \<lparr>csv_path = set_name p (name_stem (spec_strip (t @ ext)) @ ext)\<rparr>)"
        using t z' by (simp add: Csv_default_closed name_set_name set_name_set_name)
           (simp add: ext_def)
      then show ?thesis by (simp only: st)
    qed
    then have "(Csv_default (csv_path c) compress = Some (Inr c))
               = (name_stem (spec_strip t) = t)"
      by (simp add: c set_name_inject)
    then show ?thesis by (simp add: stem_strip_fixed t_def)
  qed
  then show ?thesis by simp
qed

theorem derived_path_fixpoint_iff_witness:
  "Csv_default \<lparr>anchor = [], parts = [''data'', ''table.csv.zip'']\<rparr> False
     = Some (Inr \<lparr>csv_path = \<lparr>anchor = [], parts = [''data'', ''table.csv.zip'']\<rparr>\<rparr>) \<and>
   name_suffix (name_stem (spec_strip (name \<lparr>anchor = [], parts = [''data'', ''table.csv.zip'']\<rparr>))) = [] \<and>
   Csv_default (csv_path \<lparr>csv_path = \<lparr>anchor = [], parts = [''data'', ''table.csv.zip'']\<rparr>\<rparr>) False
     = Some (Inr \<lparr>csv_path = \<lparr>anchor = [], parts = [''data'', ''table.csv.zip'']\<rparr>\<rparr>)"
proof -
  let ?p = "\<lparr>anchor = [], parts = [''data'', ''table.csv.zip'']\<rparr>"
  have v: "Csv_default ?p False = Some (Inr \<lparr>csv_path = ?p\<rparr>)"
    by (simp add: Csv_default_def Csv_init_def strip_loop.simps with_suffix_def suffix_def
        name_def name_suffix_def startswith_def)
  have s: "name_suffix (name_stem (spec_strip (name ?p))) = []"
    by (simp add: name_def spec_strip.simps name_suffix_def name_stem_def)
  have "(Csv_default (csv_path \<lparr>csv_path = ?p\<rparr>) False = Some (Inr \<lparr>csv_path = ?p\<rparr>))
        = (name_suffix (name_stem (spec_strip (name ?p))) = [])"
    by (rule mp [OF derived_path_fixpoint_iff [of ?p ?p False False "\<lparr>csv_path = ?p\<rparr>", THEN conjunct2]])
       (rule v)
  with s have "Csv_default (csv_path \<lparr>csv_path = ?p\<rparr>) False = Some (Inr \<lparr>csv_path = ?p\<rparr>)"
    by (simp only:)
  with v s show ?thesis by (simp only: simp_thms)
qed

text \<open>
  Claim C5. Whenever the construction with the default suffixes succeeds, the derived
  path ends in \<open>.csv.zip\<close> when compression is enabled (by the flag or forced by a \<open>.zip\<close>
  suffix of the given path) and in \<open>.csv\<close> when it is not: the name and the string form
  of the path end so, and the final suffix of the path is \<open>.zip\<close>, respectively \<open>.csv\<close>.
\<close>

theorem csv_path_ends_in_canonical_suffix:
  assumes "Csv_default p compress = Some (Inr c)"
  shows "(suffix p = ''.zip'' \<or> compress \<longrightarrow>
            endswith (name (csv_path c)) ''.csv.zip'' \<and>
            endswith (str_path (csv_path c)) ''.csv.zip'' \<and>
            suffix (csv_path c) = ''.zip'') \<and>
         (\<not> (suffix p = ''.zip'' \<or> compress) \<longrightarrow>
            endswith (name (csv_path c)) ''.csv'' \<and>
            endswith (str_path (csv_path c)) ''.csv'' \<and>
            suffix (csv_path c) = ''.csv'')"
proof -
  define t where "t = name_stem (spec_strip (name p))"
  from assms have np: "name p \<noteq> []"
    by (auto simp: Csv_default_closed split: if_splits)
  then have t: "t \<noteq> []"
    by (simp add: t_def name_stem_nonempty spec_strip_nonempty)
  from assms np have c: "csv_path c = set_name p (t @
      (if suffix p = ''.zip'' \<or> compress then ''.csv.zip'' else ''.csv''))"
    by (auto simp: Csv_default_closed t_def)
  have e1: "endswith (t @ ''.csv.zip'') ''.csv.zip''" and e2: "endswith (t @ ''.csv'') ''.csv''"
    by (rule endswith_append)+
  show ?thesis
    using t e1 e2 str_path_set_name [OF e1, of p] str_path_set_name [OF e2, of p]
    by (simp add: c name_set_name suffix_def name_suffix_csv name_suffix_csv_zip)
qed

theorem csv_path_ends_in_canonical_suffix_witness:
  "Csv_default \<lparr>anchor = ''/'', parts = [''srv'', ''run.v3.zip'']\<rparr> False
     = Some (Inr \<lparr>csv_path = \<lparr>anchor = ''/'', parts = [''srv'', ''run.csv.zip'']\<rparr>\<rparr>) \<and>
   endswith (str_path \<lparr>anchor = ''/'', parts = [''srv'', ''run.csv.zip'']\<rparr>) ''.csv.zip'' \<and>
   Csv_default \<lparr>anchor = ''/'', parts = [''srv'', ''run.v3'']\<rparr> False
     = Some (Inr \<lparr>csv_path = \<lparr>anchor = ''/'', parts = [''srv'', ''run.csv'']\<rparr>\<rparr>) \<and>
   endswith (str_path \<lparr>anchor = ''/'', parts = [''srv'', ''run.csv'']\<rparr>) ''.csv''"
proof -
  let ?p = "\<lparr>anchor = ''/'', parts = [''srv'', ''run.v3.zip'']\<rparr>"
  let ?q = "\<lparr>anchor = ''/'', parts = [''srv'', ''run.v3'']\<rparr>"
  have v: "Csv_default ?p False
     = Some (Inr \<lparr>csv_path = \<lparr>anchor = ''/'', parts = [''srv'', ''run.csv.zip'']\<rparr>\<rparr>)"
    by (simp add: Csv_default_def Csv_init_def strip_loop.simps with_suffix_def suffix_def
        name_def name_suffix_def startswith_def)
  have w: "Csv_default ?q False
     = Some (Inr \<lparr>csv_path = \<lparr>anchor = ''/'', parts = [''srv'', ''run.csv'']\<rparr>\<rparr>)"
    by (simp add: Csv_default_def Csv_init_def strip_loop.simps with_suffix_def suffix_def
        name_def name_suffix_def startswith_def)
  have zp: "suffix ?p = ''.zip''" and zq: "suffix ?q \<noteq> ''.zip''"
    by (simp_all add: suffix_def name_def name_suffix_def)
  from csv_path_ends_in_canonical_suffix [OF v] zp
  have a: "endswith (str_path \<lparr>anchor = ''/'', parts = [''srv'', ''run.csv.zip'']\<rparr>) ''.csv.zip''"
    by simp
  from csv_path_ends_in_canonical_suffix [OF w] zq
  have b: "endswith (str_path \<lparr>anchor = ''/'', parts = [''srv'', ''run.csv'']\<rparr>) ''.csv''"
    by simp
  from v w a b show ?thesis by (simp only: simp_thms)
qed

lemma sniff_delimiters:
  "sniff preview delimiters None =
     (case preview '','' of
        Inl e \<Rightarrow> Inl e
      | Inr f \<Rightarrow> if 0 < length (columns f) then Inr (Some '','')
                 else (case preview [CHR 0x09] of
                         Inl e \<Rightarrow> Inl e
                       | Inr g \<Rightarrow> Inr (Some [CHR 0x09])))"
  by (simp add: delimiters_def split: sum.splits)

section \<open>Claims about \<open>Csv.read\<close>\<close>

text \<open>
  Claim C1. \<open>Csv.read\<close> previews the file (two rows, first column as index) with the
  delimiters \<open>","\<close> and \<open>"\t"\<close> in that order. If the comma preview has at least one
  column, the full read uses the comma. If it has none and the tab preview returns, the full
  read uses the tab, whatever the tab preview holds: there is no further fallback. An
  exception of a preview is the exception of \<open>read\<close>. Without a rounding precision the
  result is what \<open>read_csv\<close> returns for the whole file with the delimiter chosen.
\<close>

theorem read_sniffs_comma_then_tab:
  fixes pd :: "('d, 'v) pandas"
  shows
  "delimiters = ['','', [CHR 0x09]] \<and>
   (read_csv pd (csv_path self) (IdxInt 0) dtype (Some 2) '','' = Inr f \<and> 0 < length (columns f)
      \<longrightarrow> Csv_read pd self dtype prec ic = read_with pd self dtype prec ic '','') \<and>
   (read_csv pd (csv_path self) (IdxInt 0) dtype (Some 2) '','' = Inr f \<and> length (columns f) = 0 \<and>
    read_csv pd (csv_path self) (IdxInt 0) dtype (Some 2) [CHR 0x09] = Inr g
      \<longrightarrow> Csv_read pd self dtype prec ic = read_with pd self dtype prec ic [CHR 0x09]) \<and>
   (read_csv pd (csv_path self) (IdxInt 0) dtype (Some 2) '','' = Inl e
      \<longrightarrow> Csv_read pd self dtype prec ic = Inl e) \<and>
   (read_csv pd (csv_path self) (IdxInt 0) dtype (Some 2) '','' = Inr f \<and> length (columns f) = 0 \<and>
    read_csv pd (csv_path self) (IdxInt 0) dtype (Some 2) [CHR 0x09] = Inl e
      \<longrightarrow> Csv_read pd self dtype prec ic = Inl e) \<and>
   read_with pd self dtype None ic d = read_csv pd (csv_path self) ic dtype None d"
proof -
  have "read_with pd self dtype None ic d = read_csv pd (csv_path self) ic dtype None d"
    by (simp add: read_with_def split: sum.splits)
  then show ?thesis
    by (simp add: Csv_read_def sniff_delimiters delimiters_def)
qed

theorem read_sniffs_comma_then_tab_witness:
  "Csv_read
     \<lparr>read_csv = (\<lambda>p ic (dt :: unit option) nr sep.
         if sep = '','' then
           Inr \<lparr>frame_index = \<lparr>idx_name = Some ''t x'', idx_values = [12, 27 :: int]\<rparr>,
                columns = [], rows = [[], []]\<rparr>
         else if sep = [CHR 0x09] then
           Inr \<lparr>frame_index = \<lparr>idx_name = Some ''t'', idx_values = [12, 27]\<rparr>,
                columns = [''x''], rows = [[5], [6]]\<rparr>
         else Inl (OtherError ''ParserError'')),
      np_round = (\<lambda>i prec. Inr i)\<rparr>
     \<lparr>csv_path = \<lparr>anchor = [], parts = [''data'', ''table.csv'']\<rparr>\<rparr> None None (IdxInt 0)
   = Inr \<lparr>frame_index = \<lparr>idx_name = Some ''t'', idx_values = [12, 27]\<rparr>,
          columns = [''x''], rows = [[5], [6]]\<rparr> \<and>
   Csv_read
     \<lparr>read_csv = (\<lambda>p ic (dt :: unit option) nr sep.
         if sep = '','' then
           Inr \<lparr>frame_index = \<lparr>idx_name = Some ''t;x (comma)'', idx_values = [12, 27 :: int]\<rparr>,
                columns = [], rows = [[], []]\<rparr>
         else
           Inr \<lparr>frame_index = \<lparr>idx_name = Some ''t;x (tab)'', idx_values = [12, 27]\<rparr>,
                columns = [], rows = [[], []]\<rparr>),
      np_round = (\<lambda>i prec. Inr i)\<rparr>
     \<lparr>csv_path = \<lparr>anchor = [], parts = [''data'', ''table.csv'']\<rparr>\<rparr> None None (IdxInt 0)
   = Inr \<lparr>frame_index = \<lparr>idx_name = Some ''t;x (tab)'', idx_values = [12, 27]\<rparr>,
          columns = [], rows = [[], []]\<rparr>"
proof -
  let ?f = "\<lparr>frame_index = \<lparr>idx_name = Some ''t x'', idx_values = [12, 27 :: int]\<rparr>,
                columns = [], rows = [[], []]\<rparr>"
  let ?g = "\<lparr>frame_index = \<lparr>idx_name = Some ''t'', idx_values = [12, 27 :: int]\<rparr>,
                columns = [''x''], rows = [[5], [6]]\<rparr>"
  let ?pd = "\<lparr>read_csv = (\<lambda>p ic (dt :: unit option) nr sep.
         if sep = '','' then Inr ?f
         else if sep = [CHR 0x09] then Inr ?g
         else Inl (OtherError ''ParserError'')),
      np_round = (\<lambda>i prec. Inr i)\<rparr>"
  let ?f' = "\<lparr>frame_index = \<lparr>idx_name = Some ''t;x (comma)'', idx_values = [12, 27 :: int]\<rparr>,
                columns = [], rows = [[], []]\<rparr>"
  let ?g' = "\<lparr>frame_index = \<lparr>idx_name = Some ''t;x (tab)'', idx_values = [12, 27 :: int]\<rparr>,
                columns = [], rows = [[], []]\<rparr>"
  let ?pd' = "\<lparr>read_csv = (\<lambda>p ic (dt :: unit option) nr sep.
         if sep = '','' then Inr ?f' else Inr ?g'),
      np_round = (\<lambda>i prec. Inr i)\<rparr>"
  let ?self = "\<lparr>csv_path = \<lparr>anchor = [], parts = [''data'', ''table.csv'']\<rparr>\<rparr>"
  note T = read_sniffs_comma_then_tab [where pd = ?pd and self = ?self and dtype = None
      and f = ?f and g = ?g and prec = None and ic = "IdxInt 0" and d = "[CHR 0x09]"]
  note T' = read_sniffs_comma_then_tab [where pd = ?pd' and self = ?self and dtype = None
      and f = ?f' and g = ?g' and prec = None and ic = "IdxInt 0" and d = "[CHR 0x09]"]
  have "Csv_read ?pd ?self None None (IdxInt 0) = read_with ?pd ?self None None (IdxInt 0) [CHR 0x09]"
    by (rule mp [OF T [THEN conjunct2, THEN conjunct2, THEN conjunct1]]) simp
  also have "\<dots> = read_csv ?pd (csv_path ?self) (IdxInt 0) None None [CHR 0x09]"
    by (rule T [THEN conjunct2, THEN conjunct2, THEN conjunct2, THEN conjunct2, THEN conjunct2])
  also have "\<dots> = Inr ?g" by simp
  finally have A: "Csv_read ?pd ?self None None (IdxInt 0) = Inr ?g" .
  have "Csv_read ?pd' ?self None None (IdxInt 0) = read_with ?pd' ?self None None (IdxInt 0) [CHR 0x09]"
    by (rule mp [OF T' [THEN conjunct2, THEN conjunct2, THEN conjunct1]]) simp
  also have "\<dots> = read_csv ?pd' (csv_path ?self) (IdxInt 0) None None [CHR 0x09]"
    by (rule T' [THEN conjunct2, THEN conjunct2, THEN conjunct2, THEN conjunct2, THEN conjunct2])
  also have "\<dots> = Inr ?g'" by simp
  finally have B: "Csv_read ?pd' ?self None None (IdxInt 0) = Inr ?g'" .
  from A B show ?thesis by (rule conjI)
qed

text \<open>
  Claim C8. Let the sniffing choose the delimiter \<open>d\<close> and the full read with \<open>d\<close> return
  the frame \<open>csv\<close>. With a precision \<open>p\<close> for which \<open>numpy.round\<close> returns the rounded index
  (the index is numeric), \<open>read\<close> returns \<open>csv\<close> with the values of the rounded index and
  the name the index had before the rounding; an exception of \<open>numpy.round\<close> is propagated.
  With no precision, \<open>read\<close> returns \<open>csv\<close> as parsed.
\<close>

theorem read_rounds_index_keeps_name:
  fixes pd :: "('d, 'v) pandas"
  assumes "sniff (\<lambda>delimiter. read_csv pd (csv_path self) (IdxInt 0) dtype (Some 2) delimiter)
             delimiters None = Inr (Some d)"
    and "read_csv pd (csv_path self) ic dtype None d = Inr csv"
  shows "(np_round pd (frame_index csv) p = Inr idx \<longrightarrow>
            Csv_read pd self dtype (Some p) ic =
              Inr \<lparr>frame_index = \<lparr>idx_name = idx_name (frame_index csv),
                                   idx_values = idx_values idx\<rparr>,
                   columns = columns csv, rows = rows csv\<rparr>) \<and>
         (np_round pd (frame_index csv) p = Inl e \<longrightarrow>
            Csv_read pd self dtype (Some p) ic = Inl e) \<and>
         Csv_read pd self dtype None ic = Inr csv"
  using assms by (simp add: Csv_read_def read_with_def)


theorem read_rounds_index_keeps_name_witness:
  "Csv_read
     \<lparr>read_csv = (\<lambda>p ic (dt :: unit option) nr sep.
         if sep = '','' then
           Inr \<lparr>frame_index = \<lparr>idx_name = Some ''t'', idx_values = [12, 27 :: int]\<rparr>,
                columns = [''x''], rows = [[5], [6]]\<rparr>
         else Inl (OtherError ''ParserError'')),
      np_round = (\<lambda>i prec. Inr \<lparr>idx_name = None,
                                    idx_values = map (\<lambda>v. (v + 5) div 10 * 10) (idx_values i)\<rparr>)\<rparr>
     \<lparr>csv_path = \<lparr>anchor = [], parts = [''data'', ''table.csv'']\<rparr>\<rparr> None (Some (- 1)) (IdxInt 0)
   = Inr \<lparr>frame_index = \<lparr>idx_name = Some ''t'', idx_values = [10, 30]\<rparr>,
          columns = [''x''], rows = [[5], [6]]\<rparr>"
proof -
  let ?g = "\<lparr>frame_index = \<lparr>idx_name = Some ''t'', idx_values = [12, 27 :: int]\<rparr>,
                columns = [''x''], rows = [[5], [6]]\<rparr>"
  let ?pd = "\<lparr>read_csv = (\<lambda>p ic (dt :: unit option) nr sep.
         if sep = '','' then Inr ?g else Inl (OtherError ''ParserError'')),
      np_round = (\<lambda>i prec. Inr \<lparr>idx_name = None,
                                    idx_values = map (\<lambda>v. (v + 5) div 10 * 10) (idx_values i)\<rparr>)\<rparr>"
  let ?self = "\<lparr>csv_path = \<lparr>anchor = [], parts = [''data'', ''table.csv'']\<rparr>\<rparr>"
  have s: "sniff (\<lambda>delimiter. read_csv ?pd (csv_path ?self) (IdxInt 0) None (Some 2) delimiter)
             delimiters None = Inr (Some '','')"
    by (simp add: delimiters_def)
  have r: "read_csv ?pd (csv_path ?self) (IdxInt 0) None None '','' = Inr ?g"
    by simp
  note T = read_rounds_index_keeps_name [OF s r, where p = "- 1"
      and idx = "\<lparr>idx_name = None, idx_values = [10, 30]\<rparr>"]
  have "Csv_read ?pd ?self None (Some (- 1)) (IdxInt 0) =
          Inr \<lparr>frame_index = \<lparr>idx_name = idx_name (frame_index ?g),
                               idx_values = idx_values \<lparr>idx_name = None, idx_values = [10, 30 :: int]\<rparr>\<rparr>,
               columns = columns ?g, rows = rows ?g\<rparr>"
    by (rule mp [OF T [THEN conjunct1]]) simp
  then show ?thesis by simp
qed

lemma Csv_default_uncompressed_suffix:
  assumes "Csv_default p False = Some (Inr self)" and "suffix p \<noteq> ''.zip''"
  shows "suffix (csv_path self) = ''.csv''"
proof -
  define t where "t = name_stem (spec_strip (name p))"
  from assms have np: "name p \<noteq> []"
    by (auto simp: Csv_default_closed split: if_splits)
  then have t: "t \<noteq> []"
    by (simp add: t_def name_stem_nonempty spec_strip_nonempty)
  from assms np have "csv_path self = set_name p (t @ ''.csv'')"
    by (auto simp: Csv_default_closed t_def)
  with t show ?thesis
    by (simp add: suffix_def name_set_name name_suffix_csv)
qed

lemma round_4f_close: "\<bar>x - round_4f x\<bar> * 20000 \<le> 1"
proof -
  define r :: real where "r = of_int (round (x * 10000))"
  have "\<bar>r - x * 10000\<bar> \<le> 1 / 2"
    unfolding r_def by (rule of_int_round_abs_le)
  then have "\<bar>x - r / 10000\<bar> * 20000 \<le> 1"
    by (simp add: abs_if split: if_splits)
  then show ?thesis by (simp add: round_4f_def r_def)
qed

lemma rows_close: "list_all2 (list_all2 (\<lambda>x y. \<bar>x - y\<bar> * 20000 \<le> 1)) rs (map (map round_4f) rs)"
  by (simp add: list_all2_map2 list_all2_same round_4f_close)

lemma example_io_reads_back: "reads_back example_io close_4f"
  unfolding reads_back_def
  by (auto simp: example_io_def close_4f_def rows_close split: if_splits)


text \<open>
  Claim C9. Let the instance be constructed without compression (flag \<open>False\<close>, no \<open>.zip\<close>
  suffix given) and let pandas read back what it writes, in the sense of \<open>reads_back\<close>.
  When \<open>to_csv\<close> writes the frame, \<open>write\<close> returns the instance's \<open>csv_path\<close>, with the
  content stored there, and \<open>read()\<close> on the same instance then returns a frame equal to
  the one written up to the rounding of the float format. For a frame with at least one
  column the sniffing chooses the comma, and \<open>read()\<close> returns what \<open>read_csv\<close> makes of the
  written file with \<open>sep=","\<close>, \<open>index_col=0\<close> and no \<open>dtype\<close>.
\<close>

theorem write_then_read_round_trip:
  fixes io :: "('d, 'v, 'c) pandas_io"
  assumes init: "Csv_default p False = Some (Inr self)" and nozip: "suffix p \<noteq> ''.zip''"
    and rb: "reads_back io close"
    and w: "to_csv io db (csv_path self) float_format = Inr c"
  shows "Csv_write io fs self db float_format = Inr (fs(csv_path self \<mapsto> c), csv_path self) \<and>
         (\<exists>db'. Csv_read (pandas_on io (fs(csv_path self \<mapsto> c))) self None None (IdxInt 0) = Inr db' \<and>
                close float_format db db') \<and>
         (columns db \<noteq> [] \<longrightarrow>
            Csv_read (pandas_on io (fs(csv_path self \<mapsto> c))) self None None (IdxInt 0)
              = parse_csv io (csv_path self) c (IdxInt 0) None None '','')"
proof -
  let ?q = "csv_path self"
  let ?pd = "pandas_on io (fs(?q \<mapsto> c))"
  have sfx: "suffix ?q = ''.csv''"
    using init nozip by (rule Csv_default_uncompressed_suffix)
  have rd: "read_csv ?pd ?q ic dt nr sep = parse_csv io ?q c ic dt nr sep" for ic dt nr sep
    by (simp add: pandas_on_def)
  from rb sfx w obtain pv db' where
    pv: "parse_csv io ?q c (IdxInt 0) None (Some 2) '','' = Inr pv"
    and n: "length (columns pv) = length (columns db)"
    and full: "parse_csv io ?q c (IdxInt 0) None None '','' = Inr db'"
    and cl: "close float_format db db'"
    unfolding reads_back_def by blast
  have W: "Csv_write io fs self db float_format = Inr (fs(?q \<mapsto> c), ?q)"
    by (simp add: Csv_write_def w)
  have comma: "Csv_read ?pd self None None (IdxInt 0) = Inr db'" if "columns db \<noteq> []"
    using that pv n full
    by (simp add: Csv_read_def sniff_delimiters read_with_def rd)
  have R: "\<exists>r. Csv_read ?pd self None None (IdxInt 0) = Inr r \<and> close float_format db r"
  proof (cases "columns db = []")
    case False
    with comma cl show ?thesis by blast
  next
    case True
    with rb sfx w obtain tv db'' where
      tv: "parse_csv io ?q c (IdxInt 0) None (Some 2) [CHR 0x09] = Inr tv"
      and tfull: "parse_csv io ?q c (IdxInt 0) None None [CHR 0x09] = Inr db''"
      and tcl: "close float_format db db''"
      unfolding reads_back_def by blast
    from True pv n tv tfull have "Csv_read ?pd self None None (IdxInt 0) = Inr db''"
      by (simp add: Csv_read_def sniff_delimiters read_with_def rd)
    with tcl show ?thesis by blast
  qed
  from W R comma full show ?thesis by simp
qed


theorem write_then_read_round_trip_witness:
  "Csv_default \<lparr>anchor = [], parts = [''data'', ''table.csv'']\<rparr> False
     = Some (Inr \<lparr>csv_path = \<lparr>anchor = [], parts = [''data'', ''table.csv'']\<rparr>\<rparr>) \<and>
   Csv_write example_io Map.empty \<lparr>csv_path = \<lparr>anchor = [], parts = [''data'', ''table.csv'']\<rparr>\<rparr>
       \<lparr>frame_index = \<lparr>idx_name = Some ''t'', idx_values = [0, 1]\<rparr>,
        columns = [''x''], rows = [[123456 / 100000], [5 / 2]]\<rparr> ''%.4f''
     = Inr ([\<lparr>anchor = [], parts = [''data'', ''table.csv'']\<rparr> \<mapsto>
               \<lparr>frame_index = \<lparr>idx_name = Some ''t'', idx_values = [0, 1]\<rparr>,
                columns = [''x''], rows = [[12346 / 10000], [5 / 2]]\<rparr>],
             \<lparr>anchor = [], parts = [''data'', ''table.csv'']\<rparr>) \<and>
   Csv_read
       (pandas_on example_io
          [\<lparr>anchor = [], parts = [''data'', ''table.csv'']\<rparr> \<mapsto>
             \<lparr>frame_index = \<lparr>idx_name = Some ''t'', idx_values = [0, 1]\<rparr>,
              columns = [''x''], rows = [[12346 / 10000], [5 / 2]]\<rparr>])
       \<lparr>csv_path = \<lparr>anchor = [], parts = [''data'', ''table.csv'']\<rparr>\<rparr> None None (IdxInt 0)
     = Inr \<lparr>frame_index = \<lparr>idx_name = Some ''t'', idx_values = [0, 1]\<rparr>,
            columns = [''x''], rows = [[12346 / 10000], [5 / 2]]\<rparr> \<and>
   close_4f ''%.4f''
     \<lparr>frame_index = \<lparr>idx_name = Some ''t'', idx_values = [0, 1]\<rparr>,
      columns = [''x''], rows = [[123456 / 100000], [5 / 2]]\<rparr>
     \<lparr>frame_index = \<lparr>idx_name = Some ''t'', idx_values = [0, 1]\<rparr>,
      columns = [''x''], rows = [[12346 / 10000], [5 / 2]]\<rparr>"
proof -
  let ?p = "\<lparr>anchor = [], parts = [''data'', ''table.csv'']\<rparr>"
  let ?self = "\<lparr>csv_path = ?p\<rparr>"
  let ?db = "\<lparr>frame_index = \<lparr>idx_name = Some ''t'', idx_values = [0, 1 :: real]\<rparr>,
        columns = [''x''], rows = [[123456 / 100000], [5 / 2]]\<rparr>"
  let ?c = "\<lparr>frame_index = \<lparr>idx_name = Some ''t'', idx_values = [0, 1 :: real]\<rparr>,
        columns = [''x''], rows = [[12346 / 10000], [5 / 2]]\<rparr>"
  have init: "Csv_default ?p False = Some (Inr ?self)"
    by (simp add: Csv_default_def Csv_init_def strip_loop.simps with_suffix_def suffix_def
        name_def name_suffix_def startswith_def)
  have nozip: "suffix ?p \<noteq> ''.zip''"
    by (simp add: suffix_def name_def name_suffix_def)
  have r1: "round_4f (3858 / 3125) * 5000 = 6173"
    by (simp add: round_4f_def round_def)
  have r2: "round_4f (5 / 2) = 5 / 2"
    by (simp add: round_4f_def round_def)
  have w: "to_csv example_io ?db (csv_path ?self) ''%.4f'' = Inr ?c"
    by (simp add: example_io_def r1 r2)
  note T = write_then_read_round_trip [OF init nozip example_io_reads_back w, where fs = Map.empty]
  have W: "Csv_write example_io Map.empty ?self ?db ''%.4f'' = Inr ([?p \<mapsto> ?c], ?p)"
    using T [THEN conjunct1] by simp
  have "Csv_read (pandas_on example_io [?p \<mapsto> ?c]) ?self None None (IdxInt 0)
          = parse_csv example_io ?p ?c (IdxInt 0) None None '',''"
    using T [THEN conjunct2, THEN conjunct2] by simp
  then have R: "Csv_read (pandas_on example_io [?p \<mapsto> ?c]) ?self None None (IdxInt 0) = Inr ?c"
    by (simp add: example_io_def)
  from T [THEN conjunct2, THEN conjunct1] R have C: "close_4f ''%.4f'' ?db ?c"
    by simp
  from init W R C show ?thesis by (simp only: simp_thms)
qed

section \<open>Claims about the model pipeline\<close>

text \<open>
  Claim C6, as stated, fails. For the keyword arguments \<open>Estimator=5\<close> the mapping is
  malformed: the key path does not exist, and \<open>5["is_binary"]\<close> raises \<open>TypeError\<close>, which
  is not a lookup error. So "raises a lookup error" and "the key path is absent or the
  mapping is malformed" differ there.
\<close>

theorem set_params_type_error_counterexample:
  "key_path [(''Estimator'', PInt 5)] = None \<and>
   set_params (ExampleCnnMixedPipe_init :: unit ExampleCnnMixedPipe) [(''Estimator'', PInt 5)]
     = (Inl TypeError, ExampleCnnMixedPipe_init) \<and>
   \<not> is_lookup_error TypeError \<and>
   \<not> ((\<exists>e. fst (set_params (ExampleCnnMixedPipe_init :: unit ExampleCnnMixedPipe)
                    [(''Estimator'', PInt 5)]) = Inl e \<and> is_lookup_error e)
        = (key_path [(''Estimator'', PInt 5)] = None))"
  by (simp add: key_path_def set_params_def)

text \<open>
  Claim C6, amended. When the key path \<open>parameters["Estimator"]["is_binary"]\<close> exists,
  \<open>set_params\<close> stores the value found there in the estimator's \<open>is_binary\<close>, whatever the
  value is. It raises exactly when the key path does not exist, and then the object is
  left as it was. The exception is that of the failed subscript: \<open>KeyError\<close> when
  \<open>Estimator\<close> is missing or the mapping under it has no \<open>is_binary\<close>, \<open>TypeError\<close> when the
  value under \<open>Estimator\<close> is not a mapping. It is a lookup error exactly in the first
  two cases.
\<close>

theorem set_params_sets_or_raises:
  "(key_path ps = Some v \<longrightarrow>
      set_params self ps = (Inr (), self\<lparr>estimator := (estimator self)\<lparr>is_binary := v\<rparr>\<rparr>)) \<and>
   ((\<exists>e. fst (set_params self ps) = Inl e) = (key_path ps = None)) \<and>
   (fst (set_params self ps) = Inl e \<longrightarrow>
      snd (set_params self ps) = self \<and> (e = KeyError \<or> e = TypeError)) \<and>
   (map_of ps ''Estimator'' = None \<longrightarrow> set_params self ps = (Inl KeyError, self)) \<and>
   (map_of ps ''Estimator'' = Some (PDict kvs) \<and> map_of kvs (PStr ''is_binary'') = None \<longrightarrow>
      set_params self ps = (Inl KeyError, self)) \<and>
   (map_of ps ''Estimator'' = Some est \<and> \<not> is_dict est \<longrightarrow>
      set_params self ps = (Inl TypeError, self)) \<and>
   ((\<exists>e. fst (set_params self ps) = Inl e \<and> is_lookup_error e)
      = (map_of ps ''Estimator'' = None \<or>
         (\<exists>d. map_of ps ''Estimator'' = Some (PDict d) \<and> map_of d (PStr ''is_binary'') = None)))"
proof -
  show ?thesis
  proof (cases "map_of ps ''Estimator''")
    case None
    then show ?thesis by (simp add: set_params_def key_path_def)
  next
    case (Some est)
    show ?thesis
    proof (cases "is_dict est")
      case False
      with Some show ?thesis
        by (cases est) (auto simp: set_params_def key_path_def)
    next
      case True
      then obtain d where "est = PDict d" by (cases est) auto
      with Some show ?thesis
        by (auto simp: set_params_def key_path_def split: option.splits)
    qed
  qed
qed


theorem set_params_sets_or_raises_witness:
  "key_path [(''Estimator'', PDict [(PStr ''is_binary'', PBool True)])] = Some (PBool True) \<and>
   set_params (ExampleCnnMixedPipe_init :: unit ExampleCnnMixedPipe)
       [(''Estimator'', PDict [(PStr ''is_binary'', PBool True)])]
     = (Inr (), \<lparr>estimator = Model_init\<lparr>is_binary := PBool True\<rparr>\<rparr>) \<and>
   map_of [(''Estimator'', PInt 5)] ''Estimator'' = Some (PInt 5) \<and> \<not> is_dict (PInt 5) \<and>
   set_params (ExampleCnnMixedPipe_init :: unit ExampleCnnMixedPipe) [(''Estimator'', PInt 5)]
     = (Inl TypeError, ExampleCnnMixedPipe_init) \<and>
   map_of [(''estimator'', PDict [(PStr ''is_binary'', PBool True)])] ''Estimator'' = None \<and>
   set_params (ExampleCnnMixedPipe_init :: unit ExampleCnnMixedPipe)
       [(''estimator'', PDict [(PStr ''is_binary'', PBool True)])]
     = (Inl KeyError, ExampleCnnMixedPipe_init)"
proof -
  let ?s = "ExampleCnnMixedPipe_init :: unit ExampleCnnMixedPipe"
  let ?ok = "[(''Estimator'', PDict [(PStr ''is_binary'', PBool True)])]"
  let ?bad = "[(''Estimator'', PInt 5)]"
  let ?miss = "[(''estimator'', PDict [(PStr ''is_binary'', PBool True)])]"
  have k: "key_path ?ok = Some (PBool True)" by (simp add: key_path_def)
  have b: "map_of ?bad ''Estimator'' = Some (PInt 5) \<and> \<not> is_dict (PInt 5)" by simp
  have m: "map_of ?miss ''Estimator'' = None" by simp
  have "set_params ?s ?ok = (Inr (), ?s\<lparr>estimator := (estimator ?s)\<lparr>is_binary := PBool True\<rparr>\<rparr>)"
    by (rule mp [OF set_params_sets_or_raises [where ps = ?ok and v = "PBool True" and self = ?s,
            THEN conjunct1]]) (rule k)
  then have A: "set_params ?s ?ok = (Inr (), \<lparr>estimator = Model_init\<lparr>is_binary := PBool True\<rparr>\<rparr>)"
    by (simp add: ExampleCnnMixedPipe_init_def)
  have B: "set_params ?s ?bad = (Inl TypeError, ?s)"
    by (rule mp [OF set_params_sets_or_raises [where ps = ?bad and est = "PInt 5" and self = ?s,
            THEN conjunct2, THEN conjunct2, THEN conjunct2, THEN conjunct2, THEN conjunct2,
            THEN conjunct1]])
       (rule b)
  have C: "set_params ?s ?miss = (Inl KeyError, ?s)"
    by (rule mp [OF set_params_sets_or_raises [where ps = ?miss and self = ?s,
            THEN conjunct2, THEN conjunct2, THEN conjunct2, THEN conjunct1]])
       (rule m)
  from k A b B m C show ?thesis by (simp only: simp_thms)
qed

lemma argmax_less: "xs \<noteq> [] \<Longrightarrow> argmax xs < length xs"
  by (induction xs rule: argmax.induct) (auto simp: Let_def)

lemma set_encoder_fit: "set (encoder_fit X) = set (concat X)"
  by (simp add: encoder_fit_def)

lemma inverse_transform_member:
  assumes "encoder_inverse_transform (Some cats) y = Inr l"
  shows "\<forall>row \<in> set l. \<forall>c \<in> set row. c \<in> set cats"
proof -
  from assms have a: "list_all (\<lambda>row. row \<noteq> [] \<and> length row = length cats) y"
    and l: "l = map (\<lambda>row. [cats ! argmax row]) y"
    by (auto simp: encoder_inverse_transform_def split: if_splits)
  have "cats ! argmax row \<in> set cats" if "row \<in> set y" for row
  proof -
    from a that have "row \<noteq> []" "length row = length cats"
      by (auto simp: list_all_iff)
    then show ?thesis using argmax_less [of row] by simp
  qed
  with l show ?thesis by auto
qed

lemma fit_success:
  assumes "fit K s x x_2d y = Inr s1"
  shows "is_binary s1 = is_binary s \<and> labels s1 = labels s \<and>
         (\<exists>w. model s1 = Some (network s (drop 1 (shape x)) (last (shape x_2d)), w)) \<and>
         encoder s1 = (if truthy (is_binary s) then encoder s else Some (encoder_fit (labels s)))"
  using assms
  by (auto simp: fit_def build_def Let_def split: if_splits sum.splits option.splits prod.splits)


lemma encoder_fit_labels:
  "encoder_fit [[''Good''], [''Acceptable''], [''Marginal''], [''Poor'']]
     = [''Acceptable'', ''Good'', ''Marginal'', ''Poor'']"
  by (simp add: encoder_fit_def)

text \<open>
  Claim C7. With the fixed labels: in binary mode the output layer that \<open>__build\<close> asks for
  is one sigmoid unit, and after a successful \<open>fit\<close> every row that \<open>predict\<close> returns has
  exactly one column, given that keras returns rows as wide as the output layer has units;
  in multiclass mode the output layer is a softmax of four units, and after a successful
  \<open>fit\<close> every value that \<open>predict\<close> returns is one of the four labels.
\<close>

theorem output_by_mode:
  fixes K :: "'w keras"
  assumes "labels s = [[''Good''], [''Acceptable''], [''Marginal''], [''Poor'']]"
  shows
   "(truthy (is_binary s) \<longrightarrow> output_layer (network s d1 d2) = Dense 1 ''sigmoid'') \<and>
    (\<not> truthy (is_binary s) \<longrightarrow> output_layer (network s d1 d2) = Dense 4 ''softmax'') \<and>
    (truthy (is_binary s) \<and> fit K s x x2 y = Inr s1 \<and> predict K s1 x' x2' = Inr out \<and>
     (\<forall>net w r. k_predict K net w x' x2' = Inr r \<longrightarrow>
        (\<forall>row \<in> set r. length row = units (output_layer net)))
       \<longrightarrow> (\<forall>row \<in> set out. length row = 1)) \<and>
    (\<not> truthy (is_binary s) \<and> fit K s x x2 y = Inr s1 \<and> predict K s1 x' x2' = Inr out
       \<longrightarrow> (\<forall>row \<in> set out. \<forall>v \<in> set row. v \<in> PStr ` vocabulary))"
proof -
  have A: "truthy (is_binary s) \<longrightarrow> output_layer (network s d1 d2) = Dense 1 ''sigmoid''"
    by (simp add: network_def)
  have B: "\<not> truthy (is_binary s) \<longrightarrow> output_layer (network s d1 d2) = Dense 4 ''softmax''"
    by (simp add: network_def assms)
  have C: "\<forall>row \<in> set out. length row = 1"
    if t: "truthy (is_binary s)" and f: "fit K s x x2 y = Inr s1"
      and p: "predict K s1 x' x2' = Inr out"
      and k: "\<forall>net w r. k_predict K net w x' x2' = Inr r \<longrightarrow>
               (\<forall>row \<in> set r. length row = units (output_layer net))"
  proof -
    from fit_success [OF f] t obtain w where
      m: "model s1 = Some (network s (drop 1 (shape x)) (last (shape x2)), w)"
      and b: "truthy (is_binary s1)"
      by auto
    let ?net = "network s (drop 1 (shape x)) (last (shape x2))"
    from p m b obtain r where r: "k_predict K ?net w x' x2' = Inr r"
      and out: "out = map (map PFloat) r"
      by (auto simp: predict_def split: sum.splits)
    from k r have "\<forall>row \<in> set r. length row = units (output_layer ?net)" by blast
    moreover from t have "units (output_layer ?net) = 1" by (simp add: network_def)
    ultimately show ?thesis by (simp add: out)
  qed
  have D: "\<forall>row \<in> set out. \<forall>v \<in> set row. v \<in> PStr ` vocabulary"
    if t: "\<not> truthy (is_binary s)" and f: "fit K s x x2 y = Inr s1"
      and p: "predict K s1 x' x2' = Inr out"
  proof -
    let ?cats = "encoder_fit (labels s)"
    from fit_success [OF f] t obtain w where
      m: "model s1 = Some (network s (drop 1 (shape x)) (last (shape x2)), w)"
      and b: "\<not> truthy (is_binary s1)" and e: "encoder s1 = Some ?cats"
      by auto
    from p m b e obtain r l where l: "encoder_inverse_transform (Some ?cats) r = Inr l"
      and out: "out = map (map PStr) l"
      by (auto simp: predict_def split: sum.splits)
    have "set ?cats = vocabulary"
      by (auto simp: set_encoder_fit assms vocabulary_def)
    with inverse_transform_member [OF l] show ?thesis
      by (auto simp: out)
  qed
  from A B C D show ?thesis by blast
qed


theorem output_by_mode_witness:
  "(\<exists>s1. fit \<lparr>k_compile = (\<lambda>net. Inr ()), k_fit = (\<lambda>net w x x2 y ep bs. Inr ()),
               k_predict = (\<lambda>net w x x2.
                  if units (output_layer net) = 1 then Inr [[4 / 5], [3 / 10]]
                  else if units (output_layer net) = 4
                  then Inr [[1 / 10, 7 / 10, 1 / 10, 1 / 10], [1 / 5, 1 / 5, 1 / 2, 1 / 10]]
                  else Inl (OtherError ''shape''))\<rparr>
             (Model_init\<lparr>is_binary := PBool True\<rparr>)
             \<lparr>shape = [2, 3, 2], data = replicate 12 0\<rparr> \<lparr>shape = [2, 3], data = replicate 6 0\<rparr>
             [[PBool True], [PBool False]] = Inr s1 \<and>
         predict \<lparr>k_compile = (\<lambda>net. Inr ()), k_fit = (\<lambda>net w x x2 y ep bs. Inr ()),
               k_predict = (\<lambda>net w x x2.
                  if units (output_layer net) = 1 then Inr [[4 / 5], [3 / 10]]
                  else if units (output_layer net) = 4
                  then Inr [[1 / 10, 7 / 10, 1 / 10, 1 / 10], [1 / 5, 1 / 5, 1 / 2, 1 / 10]]
                  else Inl (OtherError ''shape''))\<rparr>
             s1 \<lparr>shape = [2, 3, 2], data = replicate 12 0\<rparr> \<lparr>shape = [2, 3], data = replicate 6 0\<rparr>
           = Inr [[PFloat (4 / 5)], [PFloat (3 / 10)]]) \<and>
   list_all (\<lambda>row. length row = 1) [[PFloat (4 / 5)], [PFloat (3 / 10)]] \<and>
   (\<exists>s1. fit \<lparr>k_compile = (\<lambda>net. Inr ()), k_fit = (\<lambda>net w x x2 y ep bs. Inr ()),
               k_predict = (\<lambda>net w x x2.
                  if units (output_layer net) = 1 then Inr [[4 / 5], [3 / 10]]
                  else if units (output_layer net) = 4
                  then Inr [[1 / 10, 7 / 10, 1 / 10, 1 / 10], [1 / 5, 1 / 5, 1 / 2, 1 / 10]]
                  else Inl (OtherError ''shape''))\<rparr>
             (Model_init\<lparr>is_binary := PBool False\<rparr>)
             \<lparr>shape = [2, 3, 2], data = replicate 12 0\<rparr> \<lparr>shape = [2, 3], data = replicate 6 0\<rparr>
             [[PStr ''Good''], [PStr ''Poor'']] = Inr s1 \<and>
         predict \<lparr>k_compile = (\<lambda>net. Inr ()), k_fit = (\<lambda>net w x x2 y ep bs. Inr ()),
               k_predict = (\<lambda>net w x x2.
                  if units (output_layer net) = 1 then Inr [[4 / 5], [3 / 10]]
                  else if units (output_layer net) = 4
                  then Inr [[1 / 10, 7 / 10, 1 / 10, 1 / 10], [1 / 5, 1 / 5, 1 / 2, 1 / 10]]
                  else Inl (OtherError ''shape''))\<rparr>
             s1 \<lparr>shape = [2, 3, 2], data = replicate 12 0\<rparr> \<lparr>shape = [2, 3], data = replicate 6 0\<rparr>
           = Inr [[PStr ''Good''], [PStr ''Marginal'']]) \<and>
   list_all (list_all (\<lambda>v. v \<in> PStr ` vocabulary)) [[PStr ''Good''], [PStr ''Marginal'']]"
proof -
  let ?K = "\<lparr>k_compile = (\<lambda>net. Inr ()), k_fit = (\<lambda>net w x x2 y ep bs. Inr ()),
               k_predict = (\<lambda>net w x x2.
                  if units (output_layer net) = 1 then Inr [[4 / 5], [3 / 10]]
                  else if units (output_layer net) = 4
                  then Inr [[1 / 10, 7 / 10, 1 / 10, 1 / 10], [1 / 5, 1 / 5, 1 / 2, 1 / 10]]
                  else Inl (OtherError ''shape''))\<rparr>
            :: unit keras"
  let ?x = "\<lparr>shape = [2, 3, 2], data = replicate 12 0\<rparr>"
  let ?x2 = "\<lparr>shape = [2, 3], data = replicate 6 0\<rparr>"
  let ?sB = "Model_init\<lparr>is_binary := PBool True\<rparr> :: unit Model"
  let ?sM = "Model_init\<lparr>is_binary := PBool False\<rparr> :: unit Model"
  let ?yB = "[[PBool True], [PBool False]]"
  let ?yM = "[[PStr ''Good''], [PStr ''Poor'']]"
  let ?oB = "[[PFloat (4 / 5)], [PFloat (3 / 10)]]"
  let ?oM = "[[PStr ''Good''], [PStr ''Marginal'']]"
  have lB: "labels ?sB = [[''Good''], [''Acceptable''], [''Marginal''], [''Poor'']]"
    and lM: "labels ?sM = [[''Good''], [''Acceptable''], [''Marginal''], [''Poor'']]"
    by (simp_all add: Model_init_def)
  have k: "\<forall>net w r. k_predict ?K net w ?x ?x2 = Inr r \<longrightarrow>
             (\<forall>row \<in> set r. length row = units (output_layer net))"
    by (auto split: if_splits)
  have fB: "fit ?K ?sB ?x ?x2 ?yB = Inr (?sB\<lparr>model := Some (network ?sB [3, 2] 3, ())\<rparr>)"
    by (simp add: fit_def build_def Model_init_def)
  have pB: "predict ?K (?sB\<lparr>model := Some (network ?sB [3, 2] 3, ())\<rparr>) ?x ?x2 = Inr ?oB"
    by (simp add: predict_def network_def Model_init_def)
  have fM: "fit ?K ?sM ?x ?x2 ?yM
      = Inr (?sM\<lparr>model := Some (network ?sM [3, 2] 3, ()),
                 encoder := Some [''Acceptable'', ''Good'', ''Marginal'', ''Poor'']\<rparr>)"
    by (simp add: fit_def build_def Model_init_def encoder_fit_labels encoder_transform_def)
  have pM: "predict ?K (?sM\<lparr>model := Some (network ?sM [3, 2] 3, ()),
                 encoder := Some [''Acceptable'', ''Good'', ''Marginal'', ''Poor'']\<rparr>) ?x ?x2 = Inr ?oM"
    by (simp add: predict_def network_def Model_init_def encoder_inverse_transform_def)
  have "\<forall>row \<in> set ?oB. length row = 1"
    by (rule mp [OF output_by_mode [OF lB, where K = ?K and x = ?x and ?x2.0 = ?x2 and y = ?yB
            and x' = ?x and x2' = ?x2 and out = ?oB,
            THEN conjunct2, THEN conjunct2, THEN conjunct1]])
       (use fB pB k in simp)
  then have cB: "list_all (\<lambda>row. length row = 1) ?oB"
    by (simp only: list_all_iff)
  have "\<forall>row \<in> set ?oM. \<forall>v \<in> set row. v \<in> PStr ` vocabulary"
    by (rule mp [OF output_by_mode [OF lM, where K = ?K and x = ?x and ?x2.0 = ?x2 and y = ?yM
            and x' = ?x and x2' = ?x2 and out = ?oM,
            THEN conjunct2, THEN conjunct2, THEN conjunct2]])
       (use fM pM in simp)
  then have cM: "list_all (list_all (\<lambda>v. v \<in> PStr ` vocabulary)) ?oM"
    unfolding list_all_iff by blast
  from fB pB cB fM pM cM show ?thesis by blast
qed

lemma network_falsy:
  "\<not> truthy b \<Longrightarrow> \<not> truthy b' \<Longrightarrow>
   network (s\<lparr>is_binary := b\<rparr>) d1 d2 = network (s\<lparr>is_binary := b'\<rparr>) d1 d2"
  by (simp add: network_def)

lemma fit_multiclass:
  assumes "\<not> truthy (is_binary s)"
  shows "fit K s x x2 y =
     (if shape x2 = [] then Inl IndexError
      else case k_compile K (network s (drop 1 (shape x)) (last (shape x2))) of
        Inl e \<Rightarrow> Inl e
      | Inr w \<Rightarrow>
          (case encoder_transform (Some (encoder_fit (labels s))) y of
             Inl e \<Rightarrow> Inl e
           | Inr y' \<Rightarrow>
               (case k_fit K (network s (drop 1 (shape x)) (last (shape x2))) w x x2
                       (map (map PFloat) y') 3 32 of
                  Inl e \<Rightarrow> Inl e
                | Inr w' \<Rightarrow>
                    Inr (s\<lparr>model := Some (network s (drop 1 (shape x)) (last (shape x2)), w'),
                           encoder := Some (encoder_fit (labels s))\<rparr>))))"
  using assms
  by (simp add: fit_def build_def Let_def split: sum.splits)

lemma fit_falsy:
  assumes "\<not> truthy b" "\<not> truthy b'"
  shows "map_sum id (\<lambda>m. m\<lparr>is_binary := b'\<rparr>) (fit K (s\<lparr>is_binary := b\<rparr>) x x2 y)
         = fit K (s\<lparr>is_binary := b'\<rparr>) x x2 y"
proof -
  have n: "network (s\<lparr>is_binary := b\<rparr>) (drop 1 (shape x)) (last (shape x2))
           = network (s\<lparr>is_binary := b'\<rparr>) (drop 1 (shape x)) (last (shape x2))"
    using assms by (rule network_falsy)
  have L: "\<not> truthy (is_binary (s\<lparr>is_binary := b\<rparr>))"
    and R: "\<not> truthy (is_binary (s\<lparr>is_binary := b'\<rparr>))"
    using assms by simp_all
  show ?thesis
    unfolding fit_multiclass [OF L] fit_multiclass [OF R] n
    by (simp split: sum.splits)
qed

text \<open>
  Claim C10. A new \<open>_Model\<close> has \<open>is_binary = None\<close>, which the truth test takes as false.
  The network built for it has the four-unit softmax output and the categorical loss.
  With the flag \<open>None\<close>, \<open>fit\<close> and \<open>predict\<close> do what they do with the flag \<open>False\<close>
  (the same result or the same exception, the flag itself apart), so no exception is
  raised for the missing flag: a successful \<open>fit\<close> on the new model leaves the flag
  \<open>None\<close>, has fitted the encoder on the labels and has transformed the targets with it.
\<close>

theorem unset_flag_is_multiclass:
  fixes K :: "'w keras" and s :: "'w Model"
  shows
  "is_binary (Model_init :: 'w Model) = PNone \<and> \<not> truthy PNone \<and>
   output_layer (network (Model_init :: 'w Model) d1 d2) = Dense 4 ''softmax'' \<and>
   loss (network (Model_init :: 'w Model) d1 d2) = ''categorical_crossentropy'' \<and>
   map_sum id (\<lambda>m. m\<lparr>is_binary := PBool False\<rparr>) (fit K (s\<lparr>is_binary := PNone\<rparr>) x x2 y)
     = fit K (s\<lparr>is_binary := PBool False\<rparr>) x x2 y \<and>
   predict K (s\<lparr>is_binary := PNone\<rparr>) x x2 = predict K (s\<lparr>is_binary := PBool False\<rparr>) x x2 \<and>
   (fit K (Model_init :: 'w Model) x x2 y = Inr s1 \<longrightarrow>
      is_binary s1 = PNone \<and>
      encoder s1 = Some [''Acceptable'', ''Good'', ''Marginal'', ''Poor''] \<and>
      (\<exists>w. model s1 = Some (network (Model_init :: 'w Model) (drop 1 (shape x)) (last (shape x2)), w)) \<and>
      (\<exists>y'. encoder_transform (Some [''Acceptable'', ''Good'', ''Marginal'', ''Poor'']) y = Inr y'))"
proof -
  have A: "is_binary (Model_init :: 'w Model) = PNone \<and> \<not> truthy PNone \<and>
   output_layer (network (Model_init :: 'w Model) d1 d2) = Dense 4 ''softmax'' \<and>
   loss (network (Model_init :: 'w Model) d1 d2) = ''categorical_crossentropy''"
    by (simp add: Model_init_def network_def)
  have B: "map_sum id (\<lambda>m. m\<lparr>is_binary := PBool False\<rparr>) (fit K (s\<lparr>is_binary := PNone\<rparr>) x x2 y)
     = fit K (s\<lparr>is_binary := PBool False\<rparr>) x x2 y"
    by (rule fit_falsy) simp_all
  have C: "predict K (s\<lparr>is_binary := PNone\<rparr>) x x2 = predict K (s\<lparr>is_binary := PBool False\<rparr>) x x2"
    by (simp add: predict_def split: option.splits sum.splits prod.splits)
  have D: "is_binary s1 = PNone \<and>
      encoder s1 = Some [''Acceptable'', ''Good'', ''Marginal'', ''Poor''] \<and>
      (\<exists>w. model s1 = Some (network (Model_init :: 'w Model) (drop 1 (shape x)) (last (shape x2)), w)) \<and>
      (\<exists>y'. encoder_transform (Some [''Acceptable'', ''Good'', ''Marginal'', ''Poor'']) y = Inr y')"
    if f: "fit K (Model_init :: 'w Model) x x2 y = Inr s1"
  proof -
    have l: "encoder_fit (labels (Model_init :: 'w Model)) = [''Acceptable'', ''Good'', ''Marginal'', ''Poor'']"
      by (simp add: Model_init_def encoder_fit_labels)
    from fit_success [OF f] have "is_binary s1 = PNone \<and>
      encoder s1 = Some [''Acceptable'', ''Good'', ''Marginal'', ''Poor''] \<and>
      (\<exists>w. model s1 = Some (network (Model_init :: 'w Model) (drop 1 (shape x)) (last (shape x2)), w))"
      by (simp add: l) (simp add: Model_init_def)
    moreover from f have "\<exists>y'. encoder_transform (Some (encoder_fit (labels (Model_init :: 'w Model)))) y = Inr y'"
      by (auto simp: fit_def build_def Let_def Model_init_def
          split: if_splits sum.splits option.splits prod.splits)
    ultimately show ?thesis by (simp add: l)
  qed
  from A B C D show ?thesis by blast
qed


theorem unset_flag_is_multiclass_witness:
  "\<exists>s1. fit \<lparr>k_compile = (\<lambda>net. Inr ()), k_fit = (\<lambda>net w x x2 y ep bs. Inr ()),
              k_predict = (\<lambda>net w x x2.
                 if units (output_layer net) = 4
                 then Inr [[1 / 10, 7 / 10, 1 / 10, 1 / 10], [1 / 5, 1 / 5, 1 / 2, 1 / 10]]
                 else Inl (OtherError ''shape''))\<rparr>
            Model_init
            \<lparr>shape = [2, 3, 2], data = replicate 12 0\<rparr> \<lparr>shape = [2, 3], data = replicate 6 0\<rparr>
            [[PStr ''Good''], [PStr ''Poor'']] = Inr s1 \<and>
        is_binary s1 = PNone \<and>
        encoder s1 = Some [''Acceptable'', ''Good'', ''Marginal'', ''Poor''] \<and>
        predict \<lparr>k_compile = (\<lambda>net. Inr ()), k_fit = (\<lambda>net w x x2 y ep bs. Inr ()),
              k_predict = (\<lambda>net w x x2.
                 if units (output_layer net) = 4
                 then Inr [[1 / 10, 7 / 10, 1 / 10, 1 / 10], [1 / 5, 1 / 5, 1 / 2, 1 / 10]]
                 else Inl (OtherError ''shape''))\<rparr>
            s1 \<lparr>shape = [2, 3, 2], data = replicate 12 0\<rparr> \<lparr>shape = [2, 3], data = replicate 6 0\<rparr>
          = Inr [[PStr ''Good''], [PStr ''Marginal'']]"
proof -
  let ?K = "\<lparr>k_compile = (\<lambda>net. Inr ()), k_fit = (\<lambda>net w x x2 y ep bs. Inr ()),
              k_predict = (\<lambda>net w x x2.
                 if units (output_layer net) = 4
                 then Inr [[1 / 10, 7 / 10, 1 / 10, 1 / 10], [1 / 5, 1 / 5, 1 / 2, 1 / 10]]
                 else Inl (OtherError ''shape''))\<rparr> :: unit keras"
  let ?x = "\<lparr>shape = [2, 3, 2], data = replicate 12 0\<rparr>"
  let ?x2 = "\<lparr>shape = [2, 3], data = replicate 6 0\<rparr>"
  let ?y = "[[PStr ''Good''], [PStr ''Poor'']]"
  let ?s1 = "(Model_init :: unit Model)\<lparr>model := Some (network (Model_init :: unit Model) [3, 2] 3, ()),
                 encoder := Some [''Acceptable'', ''Good'', ''Marginal'', ''Poor'']\<rparr>"
  have f: "fit ?K Model_init ?x ?x2 ?y = Inr ?s1"
    by (simp add: fit_def build_def Model_init_def encoder_fit_labels encoder_transform_def)
  have "is_binary ?s1 = PNone \<and>
      encoder ?s1 = Some [''Acceptable'', ''Good'', ''Marginal'', ''Poor''] \<and>
      (\<exists>w. model ?s1 = Some (network (Model_init :: unit Model) (drop 1 (shape ?x)) (last (shape ?x2)), w)) \<and>
      (\<exists>y'. encoder_transform (Some [''Acceptable'', ''Good'', ''Marginal'', ''Poor'']) ?y = Inr y')"
    by (rule mp [OF unset_flag_is_multiclass [where K = ?K and x = ?x and ?x2.0 = ?x2 and y = ?y
            and ?s1.0 = ?s1,
            THEN conjunct2, THEN conjunct2, THEN conjunct2, THEN conjunct2, THEN conjunct2,
            THEN conjunct2]])
       (rule f)
  then have a: "is_binary ?s1 = PNone"
    and b: "encoder ?s1 = Some [''Acceptable'', ''Good'', ''Marginal'', ''Poor'']"
    by blast+
  have p: "predict ?K ?s1 ?x ?x2 = Inr [[PStr ''Good''], [PStr ''Marginal'']]"
    by (simp add: predict_def network_def Model_init_def encoder_inverse_transform_def)
  from f a b p show ?thesis by blast
qed

end
